theory Spec2Isabelle
  imports Main "HOL-Library.AList" "HOL-Library.List_Lexorder" "HOL-Library.Char_ord"
begin

section \<open>Data model\<close>

text \<open>
  The tool \<^verbatim>\<open>move-chat.py\<close> moves one chat session between two project directories
  below a fixed root. This theory embeds its functions and the part of the Python
  standard library they call (\<^verbatim>\<open>pathlib\<close>, \<^verbatim>\<open>shutil\<close>, \<^verbatim>\<open>json\<close>) on an explicit
  file-system state.

  A session entry is a JSON object, read by \<^verbatim>\<open>json.load\<close> into a Python dict. A dict
  keeps its keys in insertion order, assignment to a present key keeps the key's place
  and assignment to an absent key appends it: an association list with
  \<^const>\<open>map_of\<close> for \<^verbatim>\<open>d.get(k)\<close> and \<^const>\<open>AList.update\<close> for \<^verbatim>\<open>d[k] = v\<close>.
\<close>

datatype jval = JNull | JStr string

type_synonym entry = "(string \<times> jval) list"

text \<open>
  The index document. The code reads \<^verbatim>\<open>index.get("entries", [])\<close> in some places and
  \<^verbatim>\<open>index["entries"]\<close> in others, so a document without the key \<^verbatim>\<open>entries\<close> is kept
  apart from one with an empty list.
\<close>

record index =
  version :: int
  entries :: "entry list option"
  originalPath :: string

text \<open>
  A regular file holds either the JSON text of an index (\<open>Json\<close>: what \<^verbatim>\<open>json.dump\<close>
  writes and \<^verbatim>\<open>json.load\<close> reads back) or bytes that do not parse as JSON (\<open>Bytes\<close>).
  A directory below a project directory is a list of named files.
\<close>

datatype fdata = Bytes string | Json index

type_synonym tree = "(string \<times> fdata) list"

datatype node = File fdata | Dir tree

text \<open>
  The file system below the projects root: a project directory is named by its encoded
  path and holds named children. A path is the pair of the two names, and two paths are
  the same file exactly when the pairs are equal; links and file systems that ignore case
  are not modelled.

  The code builds the paths of a session with \<^verbatim>\<open>pathlib\<close>, as
  \<^verbatim>\<open>project_dir / session_id\<close> and \<^verbatim>\<open>project_dir / f"{session_id}.jsonl"\<close>. The pair
  \<open>(project_dir, session_id)\<close> is that path when the identifier is one ordinary path
  component and the encoded project path is not empty. For the identifiers \<^verbatim>\<open>""\<close> and
  \<^verbatim>\<open>"."\<close> the code's auxiliary directory is the project directory itself, for
  \<^verbatim>\<open>".."\<close> it is the projects root, and an identifier with a separator names a file
  further down or elsewhere; for an empty project path the project directory is the
  projects root. The pair model does not follow the code there: the theorem that proves a
  move successful assumes an ordinary identifier and non-empty project paths.
\<close>

type_synonym path = "string \<times> string"

type_synonym fs = "string \<rightharpoonup> (string \<rightharpoonup> node)"

definition ordinary_id :: "string \<Rightarrow> bool" where
  "ordinary_id session_id =
     (session_id \<noteq> '''' \<and> session_id \<noteq> ''.'' \<and> session_id \<noteq> ''..''
      \<and> CHR ''/'' \<notin> set session_id)"

datatype error =
    SameFileError | FileExistsError | FileNotFoundError | IsADirectoryError
  | NotADirectoryError | JSONDecodeError | KeyError | OSError

text \<open>
  The places where \<^verbatim>\<open>move_session\<close> changes the file system. The environment may make
  the operation at a place fail with an \<^verbatim>\<open>OSError\<close> (permissions, a full disk), and a
  failing copy, write or recursive delete may leave its target half done.
\<close>

datatype site =
    MkdirDest | CopyLog | CopyAux | CommitDest | CommitSource | DeleteLog | DeleteAux
  | RollbackLog | RollbackAux | RollbackIndex

datatype fault = Clean | Partial node

datatype op =
    MkdirOp string | Copy2Op path path | CopytreeOp path path | SaveOp string
  | UnlinkOp path | RmtreeOp path

type_synonym event = "op \<times> bool"

text \<open>
  The state threaded through the program: the file system, the number of times the clock
  has been read, and the trace of the mutating calls made so far, each with whether it
  returned (\<open>True\<close>) or raised (\<open>False\<close>).
\<close>

record state =
  fs :: fs
  ticks :: nat
  trace :: "event list"

text \<open>
  The environment: \<open>root\<close> is \<^verbatim>\<open>str(PROJECTS_DIR)\<close>, which depends on the home directory;
  \<open>clock n\<close> is what the \<open>n\<close>-th call of \<^verbatim>\<open>datetime.now().isoformat()\<close> returns;
  \<open>fault\<close> is the failure injected at each place, if any.
\<close>

record env =
  root :: string
  clock :: "nat \<Rightarrow> string"
  fault :: "site \<Rightarrow> fault option"

section \<open>Path encoder\<close>

text \<open>
  \<^verbatim>\<open>s.replace(old, new)\<close>: the occurrences of \<open>old\<close> are replaced from left to right
  without overlap; an empty \<open>old\<close> matches before every character and at the end.
\<close>

function str_replace :: "string \<Rightarrow> string \<Rightarrow> string \<Rightarrow> string" where
  "str_replace old new s =
     (if old = [] then new @ concat (map (\<lambda>c. c # new) s)
      else if s = [] then []
      else if take (length old) s = old then new @ str_replace old new (drop (length old) s)
      else hd s # str_replace old new (tl s))"
  by pat_completeness auto
termination
  by (relation "measure (\<lambda>(old, new, s). length s)") auto

declare str_replace.simps [simp del]

text \<open>
  \<^verbatim>\<open>re.sub(r"[...]", repl, s)\<close> for a pattern that is one character class: each character
  of the class is replaced by \<open>repl\<close>.
\<close>

definition re_sub_class :: "char list \<Rightarrow> string \<Rightarrow> string \<Rightarrow> string" where
  "re_sub_class cls repl s = concat (map (\<lambda>c. if c \<in> set cls then repl else [c]) s)"

definition encode_path :: "string \<Rightarrow> string" where
  "encode_path p =
     (let encoded = str_replace ''/'' ''-'' p;
          encoded = re_sub_class [CHR ''@'', CHR ''.''] ''-'' encoded
      in encoded)"

text \<open>
  \<^verbatim>\<open>PROJECTS_DIR / encoded\<close>: the project directory is identified by its encoded name.
\<close>

definition get_project_dir :: "string \<Rightarrow> string" where
  "get_project_dir project_path = encode_path project_path"

text \<open>\<^verbatim>\<open>str(path)\<close> of a child of a project directory.\<close>

definition path_str :: "env \<Rightarrow> path \<Rightarrow> string" where
  "path_str ev p = root ev @ ''/'' @ fst p @ ''/'' @ snd p"

section \<open>File-system operations\<close>

definition lookup :: "fs \<Rightarrow> path \<Rightarrow> node option" where
  "lookup f p = (case f (fst p) of None \<Rightarrow> None | Some kids \<Rightarrow> kids (snd p))"

text \<open>\<^verbatim>\<open>Path.exists()\<close> of a child path and of a project directory.\<close>

definition path_exists :: "fs \<Rightarrow> path \<Rightarrow> bool" where
  "path_exists f p = (lookup f p \<noteq> None)"

definition dir_exists :: "fs \<Rightarrow> string \<Rightarrow> bool" where
  "dir_exists f d = (f d \<noteq> None)"

definition children :: "fs \<Rightarrow> string \<Rightarrow> (string \<rightharpoonup> node)" where
  "children f d = (case f d of None \<Rightarrow> Map.empty | Some kids \<Rightarrow> kids)"

definition store :: "fs \<Rightarrow> path \<Rightarrow> node \<Rightarrow> fs" where
  "store f p n = f(fst p \<mapsto> (children f (fst p))(snd p \<mapsto> n))"

definition remove :: "fs \<Rightarrow> path \<Rightarrow> fs" where
  "remove f p =
     (case f (fst p) of None \<Rightarrow> f | Some kids \<Rightarrow> f(fst p \<mapsto> kids(snd p := None)))"

definition partial_effect :: "fault \<Rightarrow> path \<Rightarrow> fs \<Rightarrow> fs" where
  "partial_effect flt p f = (case flt of Clean \<Rightarrow> f | Partial n \<Rightarrow> store f p n)"

text \<open>A mutating call that raised, and one that returned.\<close>

definition raised :: "error \<Rightarrow> op \<Rightarrow> state \<Rightarrow> error option \<times> state" where
  "raised e a st = (Some e, st\<lparr>trace := trace st @ [(a, False)]\<rparr>)"

definition returned :: "op \<Rightarrow> fs \<Rightarrow> state \<Rightarrow> error option \<times> state" where
  "returned a f st = (None, st\<lparr>fs := f, trace := trace st @ [(a, True)]\<rparr>)"

definition interrupted :: "fault \<Rightarrow> op \<Rightarrow> path \<Rightarrow> state \<Rightarrow> error option \<times> state" where
  "interrupted flt a p st =
     (Some OSError, st\<lparr>fs := partial_effect flt p (fs st), trace := trace st @ [(a, False)]\<rparr>)"

text \<open>\<^verbatim>\<open>dest_dir.mkdir(parents=True, exist_ok=True)\<close>.\<close>

definition mkdir :: "env \<Rightarrow> site \<Rightarrow> string \<Rightarrow> state \<Rightarrow> error option \<times> state" where
  "mkdir ev s d st =
     (case fault ev s of
        Some flt \<Rightarrow> raised OSError (MkdirOp d) st
      | None \<Rightarrow> returned (MkdirOp d) ((fs st)(d \<mapsto> children (fs st) d)) st)"

text \<open>
  \<^verbatim>\<open>shutil.copy2(src, dst)\<close>: a destination that is a directory receives the file under
  the source's base name; otherwise copying a file onto itself raises
  \<^verbatim>\<open>SameFileError\<close>; the source is opened (a directory cannot be), then the destination,
  whose parent must exist.
\<close>

definition copy2 :: "env \<Rightarrow> site \<Rightarrow> path \<Rightarrow> path \<Rightarrow> state \<Rightarrow> error option \<times> state" where
  "copy2 ev s src dst st =
     (let f = fs st; a = Copy2Op src dst;
          into_dir = (case lookup f dst of Some (Dir t) \<Rightarrow> True | _ \<Rightarrow> False)
      in if \<not> into_dir \<and> src = dst then raised SameFileError a st
         else case lookup f src of
                None \<Rightarrow> raised FileNotFoundError a st
              | Some (Dir t) \<Rightarrow> raised IsADirectoryError a st
              | Some (File d) \<Rightarrow>
                  if \<not> dir_exists f (fst dst) then raised FileNotFoundError a st
                  else case fault ev s of
                         Some flt \<Rightarrow> interrupted flt a dst st
                       | None \<Rightarrow>
                           (case lookup f dst of
                              Some (Dir t) \<Rightarrow>
                                returned a (store f dst (Dir (AList.update (snd src) d t))) st
                            | _ \<Rightarrow> returned a (store f dst (File d)) st))"

text \<open>
  \<^verbatim>\<open>shutil.copytree(src, dst)\<close>: the source is listed first (a file cannot be), then
  \<^verbatim>\<open>os.makedirs(dst)\<close> raises \<^verbatim>\<open>FileExistsError\<close> when the destination exists and
  creates missing parents otherwise.
\<close>

definition copytree :: "env \<Rightarrow> site \<Rightarrow> path \<Rightarrow> path \<Rightarrow> state \<Rightarrow> error option \<times> state" where
  "copytree ev s src dst st =
     (let f = fs st; a = CopytreeOp src dst
      in case lookup f src of
           None \<Rightarrow> raised FileNotFoundError a st
         | Some (File d) \<Rightarrow> raised NotADirectoryError a st
         | Some (Dir t) \<Rightarrow>
             if path_exists f dst then raised FileExistsError a st
             else case fault ev s of
                    Some flt \<Rightarrow> interrupted flt a dst st
                  | None \<Rightarrow> returned a (store f dst (Dir t)) st)"

text \<open>\<^verbatim>\<open>Path.unlink()\<close>.\<close>

definition unlink :: "env \<Rightarrow> site \<Rightarrow> path \<Rightarrow> state \<Rightarrow> error option \<times> state" where
  "unlink ev s p st =
     (let f = fs st; a = UnlinkOp p
      in case lookup f p of
           None \<Rightarrow> raised FileNotFoundError a st
         | Some (Dir t) \<Rightarrow> raised IsADirectoryError a st
         | Some (File d) \<Rightarrow>
             (case fault ev s of
                Some flt \<Rightarrow> raised OSError a st
              | None \<Rightarrow> returned a (remove f p) st))"

text \<open>\<^verbatim>\<open>shutil.rmtree(path)\<close>.\<close>

definition rmtree :: "env \<Rightarrow> site \<Rightarrow> path \<Rightarrow> state \<Rightarrow> error option \<times> state" where
  "rmtree ev s p st =
     (let f = fs st; a = RmtreeOp p
      in case lookup f p of
           None \<Rightarrow> raised FileNotFoundError a st
         | Some (File d) \<Rightarrow> raised NotADirectoryError a st
         | Some (Dir t) \<Rightarrow>
             (case fault ev s of
                Some flt \<Rightarrow> interrupted flt a p st
              | None \<Rightarrow> returned a (remove f p) st))"

section \<open>Session index store\<close>

definition index_name :: string where
  "index_name = ''sessions-index.json''"

text \<open>\<^verbatim>\<open>original_path or ""\<close>, with \<open>None\<close> for the omitted argument.\<close>

definition or_empty :: "string option \<Rightarrow> string" where
  "or_empty original_path =
     (case original_path of None \<Rightarrow> '''' | Some p \<Rightarrow> if p = '''' then '''' else p)"

definition load_sessions_index :: "fs \<Rightarrow> string \<Rightarrow> string option \<Rightarrow> error + index" where
  "load_sessions_index f project_dir original_path =
     (let index_path = (project_dir, index_name)
      in if \<not> path_exists f index_path
         then Inr \<lparr>version = 1, entries = Some [], originalPath = or_empty original_path\<rparr>
         else case lookup f index_path of
                Some (File (Json idx)) \<Rightarrow> Inr idx
              | Some (File (Bytes b)) \<Rightarrow> Inl JSONDecodeError
              | _ \<Rightarrow> Inl IsADirectoryError)"

text \<open>
  \<^verbatim>\<open>open(index_path, "w")\<close> needs the project directory and cannot open a directory;
  an interrupted write leaves whatever the fault says.
\<close>

definition save_sessions_index ::
  "env \<Rightarrow> site \<Rightarrow> string \<Rightarrow> index \<Rightarrow> state \<Rightarrow> error option \<times> state" where
  "save_sessions_index ev s project_dir idx st =
     (let f = fs st; index_path = (project_dir, index_name); a = SaveOp project_dir
      in if \<not> dir_exists f project_dir then raised FileNotFoundError a st
         else case lookup f index_path of
                Some (Dir t) \<Rightarrow> raised IsADirectoryError a st
              | _ \<Rightarrow>
                  (case fault ev s of
                     Some flt \<Rightarrow> interrupted flt a index_path st
                   | None \<Rightarrow> returned a (store f index_path (File (Json idx))) st))"

section \<open>Session locator\<close>

text \<open>
  \<^verbatim>\<open>for i, session in enumerate(...)\<close>: the scan from position \<open>i\<close>, returning at the
  first entry whose \<^verbatim>\<open>sessionId\<close> is the string looked for.
\<close>

fun scan_entries :: "nat \<Rightarrow> entry list \<Rightarrow> string \<Rightarrow> (nat \<times> entry) option" where
  "scan_entries i [] session_id = None"
| "scan_entries i (session # rest) session_id =
     (if map_of session ''sessionId'' = Some (JStr session_id) then Some (i, session)
      else scan_entries (Suc i) rest session_id)"

text \<open>\<^verbatim>\<open>index.get("entries", [])\<close>.\<close>

definition get_entries :: "index \<Rightarrow> entry list" where
  "get_entries idx = (case entries idx of None \<Rightarrow> [] | Some es \<Rightarrow> es)"

definition find_session_in_index :: "index \<Rightarrow> string \<Rightarrow> (nat \<times> entry) option" where
  "find_session_in_index idx session_id = scan_entries 0 (get_entries idx) session_id"

text \<open>
  The two calls of \<^verbatim>\<open>datetime.now()\<close> are the clock readings \<open>t\<close> and \<open>t + 1\<close>.
\<close>

definition create_session_entry :: "env \<Rightarrow> nat \<Rightarrow> string \<Rightarrow> string \<Rightarrow> string \<Rightarrow> entry" where
  "create_session_entry ev t session_id project_dir project_path =
     (let jsonl_path = (project_dir, session_id @ ''.jsonl'')
      in [(''sessionId'', JStr session_id),
          (''fullPath'', JStr (path_str ev jsonl_path)),
          (''projectPath'', JStr project_path),
          (''summary'', JStr ''Migrated session''),
          (''created'', JStr (clock ev t)),
          (''modified'', JStr (clock ev (Suc t)))])"

section \<open>Migration transaction\<close>

text \<open>
  How a call of \<^verbatim>\<open>move_session\<close> ends: with one of its messages and, for all but the
  first two, exit status 1. \<open>RolledBack\<close> is the run that prints
  "Rollback complete. Source files preserved." and \<open>RollbackFailed\<close> the one that prints
  "Rollback failed"; both carry the place and the exception of the failure that started
  the rollback. \<open>Uncaught\<close> is an exception raised outside the \<^verbatim>\<open>try\<close> block.
\<close>

datatype outcome =
    Moved | DryRunComplete
  | SourceProjectMissing | SessionNotFound | DuplicateSession
  | Uncaught error
  | RolledBack site error
  | RollbackFailed site error error

text \<open>
  Lines 131 to 135: the destination project directory is made when it does not exist,
  unless this is a dry run.
\<close>

definition ensure_dest_dir :: "env \<Rightarrow> string \<Rightarrow> bool \<Rightarrow> state \<Rightarrow> error option \<times> state" where
  "ensure_dest_dir ev dest_dir dry_run st =
     (if \<not> dir_exists (fs st) dest_dir
      then (if \<not> dry_run then mkdir ev MkdirDest dest_dir st else (None, st))
      else (None, st))"

text \<open>
  Lines 139 to 155: the session is taken from the source index, or, when it is not there
  and its log file exists, a fresh entry is made for it (two clock readings); the result
  is the position in the index if any, the entry, and the state. \<open>None\<close> is the exit
  with "not found in source project".
\<close>

definition locate_session ::
  "env \<Rightarrow> string \<Rightarrow> string \<Rightarrow> string \<Rightarrow> index \<Rightarrow> state \<Rightarrow> (nat option \<times> entry \<times> state) option" where
  "locate_session ev session_id source_dir source_path source_index st =
     (let session_result = find_session_in_index source_index session_id;
          source_jsonl = (source_dir, session_id @ ''.jsonl'')
      in case session_result of
           None \<Rightarrow>
             if path_exists (fs st) source_jsonl
             then Some (None,
                        create_session_entry ev (ticks st) session_id source_dir source_path,
                        st\<lparr>ticks := ticks st + 2\<rparr>)
             else None
         | Some (session_idx, session_data) \<Rightarrow> Some (Some session_idx, session_data, st))"

text \<open>
  Lines 179 to 183, the staged entry: \<^verbatim>\<open>session_data.copy()\<close> with three keys
  assigned; the clock is read once, at reading \<open>t\<close>.
\<close>

definition stage_entry :: "env \<Rightarrow> nat \<Rightarrow> entry \<Rightarrow> path \<Rightarrow> string \<Rightarrow> entry" where
  "stage_entry ev t session_data dest_jsonl dest_path =
     (let new_session_data = session_data;
          new_session_data = AList.update ''fullPath'' (JStr (path_str ev dest_jsonl)) new_session_data;
          new_session_data = AList.update ''projectPath'' (JStr dest_path) new_session_data;
          new_session_data = AList.update ''modified'' (JStr (clock ev t)) new_session_data
      in new_session_data)"

text \<open>\<^verbatim>\<open>lst.pop(i)\<close> for a position inside the list.\<close>

definition pop :: "nat \<Rightarrow> 'a list \<Rightarrow> 'a list" where
  "pop i xs = take i xs @ drop (Suc i) xs"

text \<open>
  The body of the \<^verbatim>\<open>try\<close> block (lines 214 to 257), one function per step of the
  source: steps 1 and 2 copy, step 3 writes the destination index, step 4 the source
  index, step 5 deletes the source log file and then the source auxiliary directory. Each
  returns the exception raised, if any, and the state reached.
\<close>

definition copy_log :: "env \<Rightarrow> path \<Rightarrow> path \<Rightarrow> state \<Rightarrow> error option \<times> state" where
  "copy_log ev source_jsonl dest_jsonl st =
     (if path_exists (fs st) source_jsonl then copy2 ev CopyLog source_jsonl dest_jsonl st
      else (None, st))"

definition copy_aux :: "env \<Rightarrow> path \<Rightarrow> path \<Rightarrow> state \<Rightarrow> error option \<times> state" where
  "copy_aux ev source_subdir dest_subdir st =
     (if path_exists (fs st) source_subdir then copytree ev CopyAux source_subdir dest_subdir st
      else (None, st))"

text \<open>\<^verbatim>\<open>dest_index["entries"].append(...)\<close> raises \<^verbatim>\<open>KeyError\<close> without the key.\<close>

definition commit_dest :: "env \<Rightarrow> string \<Rightarrow> index \<Rightarrow> entry \<Rightarrow> state \<Rightarrow> error option \<times> state" where
  "commit_dest ev dest_dir dest_index new_session_data st =
     (case entries dest_index of
        None \<Rightarrow> (Some KeyError, st)
      | Some es \<Rightarrow>
          save_sessions_index ev CommitDest dest_dir
            (dest_index\<lparr>entries := Some (es @ [new_session_data])\<rparr>) st)"

definition commit_source ::
  "env \<Rightarrow> string \<Rightarrow> index \<Rightarrow> nat option \<Rightarrow> state \<Rightarrow> error option \<times> state" where
  "commit_source ev source_dir source_index session_idx st =
     (case session_idx of
        None \<Rightarrow> (None, st)
      | Some i \<Rightarrow>
          save_sessions_index ev CommitSource source_dir
            (source_index\<lparr>entries := Some (pop i (get_entries source_index))\<rparr>) st)"

definition delete_log :: "env \<Rightarrow> path \<Rightarrow> state \<Rightarrow> error option \<times> state" where
  "delete_log ev source_jsonl st =
     (if path_exists (fs st) source_jsonl then unlink ev DeleteLog source_jsonl st
      else (None, st))"

definition delete_aux :: "env \<Rightarrow> path \<Rightarrow> state \<Rightarrow> error option \<times> state" where
  "delete_aux ev source_subdir st =
     (if path_exists (fs st) source_subdir then rmtree ev DeleteAux source_subdir st
      else (None, st))"

text \<open>
  The \<^verbatim>\<open>try\<close> block: the steps in order, leaving at the first exception with the place
  where it was raised.
\<close>

definition migrate ::
  "env \<Rightarrow> string \<Rightarrow> string \<Rightarrow> string \<Rightarrow> index \<Rightarrow> nat option \<Rightarrow> index \<Rightarrow> entry \<Rightarrow> state
     \<Rightarrow> (site \<times> error) option \<times> state" where
  "migrate ev session_id source_dir dest_dir source_index session_idx dest_index
       new_session_data st =
     (let source_jsonl = (source_dir, session_id @ ''.jsonl'');
          source_subdir = (source_dir, session_id);
          dest_jsonl = (dest_dir, session_id @ ''.jsonl'');
          dest_subdir = (dest_dir, session_id)
      in case copy_log ev source_jsonl dest_jsonl st of
           (Some e, st1) \<Rightarrow> (Some (CopyLog, e), st1)
         | (None, st1) \<Rightarrow>
       (case copy_aux ev source_subdir dest_subdir st1 of
           (Some e, st2) \<Rightarrow> (Some (CopyAux, e), st2)
         | (None, st2) \<Rightarrow>
       (case commit_dest ev dest_dir dest_index new_session_data st2 of
           (Some e, st3) \<Rightarrow> (Some (CommitDest, e), st3)
         | (None, st3) \<Rightarrow>
       (case commit_source ev source_dir source_index session_idx st3 of
           (Some e, st4) \<Rightarrow> (Some (CommitSource, e), st4)
         | (None, st4) \<Rightarrow>
       (case delete_log ev source_jsonl st4 of
           (Some e, st5) \<Rightarrow> (Some (DeleteLog, e), st5)
         | (None, st5) \<Rightarrow>
       (case delete_aux ev source_subdir st5 of
           (Some e, st6) \<Rightarrow> (Some (DeleteAux, e), st6)
         | (None, st6) \<Rightarrow> (None, st6)))))))"

text \<open>
  The \<^verbatim>\<open>except\<close> block's inner \<^verbatim>\<open>try\<close> (lines 264 to 276): remove the destination
  files if they exist, then load the destination index again, drop the entries of the
  session and save it.
\<close>

definition rollback_log :: "env \<Rightarrow> path \<Rightarrow> state \<Rightarrow> error option \<times> state" where
  "rollback_log ev dest_jsonl st =
     (if path_exists (fs st) dest_jsonl then unlink ev RollbackLog dest_jsonl st
      else (None, st))"

definition rollback_aux :: "env \<Rightarrow> path \<Rightarrow> state \<Rightarrow> error option \<times> state" where
  "rollback_aux ev dest_subdir st =
     (if path_exists (fs st) dest_subdir then rmtree ev RollbackAux dest_subdir st
      else (None, st))"

definition rollback_index :: "env \<Rightarrow> string \<Rightarrow> string \<Rightarrow> state \<Rightarrow> error option \<times> state" where
  "rollback_index ev session_id dest_dir st =
     (case load_sessions_index (fs st) dest_dir None of
        Inl e \<Rightarrow> (Some e, st)
      | Inr dest_index_restored \<Rightarrow>
          save_sessions_index ev RollbackIndex dest_dir
            (dest_index_restored\<lparr>entries :=
               Some (filter (\<lambda>s. map_of s ''sessionId'' \<noteq> Some (JStr session_id))
                       (get_entries dest_index_restored))\<rparr>) st)"

definition rollback :: "env \<Rightarrow> string \<Rightarrow> string \<Rightarrow> state \<Rightarrow> error option \<times> state" where
  "rollback ev session_id dest_dir st =
     (let dest_jsonl = (dest_dir, session_id @ ''.jsonl'');
          dest_subdir = (dest_dir, session_id)
      in case rollback_log ev dest_jsonl st of
           (Some e, st1) \<Rightarrow> (Some e, st1)
         | (None, st1) \<Rightarrow>
       (case rollback_aux ev dest_subdir st1 of
           (Some e, st2) \<Rightarrow> (Some e, st2)
         | (None, st2) \<Rightarrow> rollback_index ev session_id dest_dir st2))"

text \<open>
  \<^verbatim>\<open>move_session\<close> (lines 113 to 283). Printing is left out, and with it the
  \<^verbatim>\<open>verbose\<close> flag, which only selects what is printed. Two ways in which a run of the
  code can end are left out with it: line 176, run in a dry run or a verbose one, raises
  \<^verbatim>\<open>TypeError\<close> for an entry without a summary whose \<^verbatim>\<open>firstPrompt\<close> is null, after
  the checks and before any change to the file system; and a \<^verbatim>\<open>print\<close> inside the
  \<^verbatim>\<open>try\<close> block that raises (a closed output stream) starts the rollback like any other
  exception there.
\<close>

definition move_session ::
  "env \<Rightarrow> string \<Rightarrow> string \<Rightarrow> string \<Rightarrow> bool \<Rightarrow> state \<Rightarrow> outcome \<times> state" where
  "move_session ev session_id source_path dest_path dry_run st0 =
     (let source_dir = get_project_dir source_path;
          dest_dir = get_project_dir dest_path
      in if \<not> dir_exists (fs st0) source_dir then (SourceProjectMissing, st0)
         else
       case ensure_dest_dir ev dest_dir dry_run st0 of
         (Some e, st1) \<Rightarrow> (Uncaught e, st1)
       | (None, st1) \<Rightarrow>
       (case load_sessions_index (fs st1) source_dir None of
          Inl e \<Rightarrow> (Uncaught e, st1)
        | Inr source_index \<Rightarrow>
       (case locate_session ev session_id source_dir source_path source_index st1 of
          None \<Rightarrow> (SessionNotFound, st1)
        | Some (session_idx, session_data, st2) \<Rightarrow>
       (let dest_jsonl = (dest_dir, session_id @ ''.jsonl'')
        in case load_sessions_index (fs st2) dest_dir (Some dest_path) of
             Inl e \<Rightarrow> (Uncaught e, st2)
           | Inr dest_index \<Rightarrow>
               if find_session_in_index dest_index session_id \<noteq> None
               then (DuplicateSession, st2)
               else
       (let new_session_data = stage_entry ev (ticks st2) session_data dest_jsonl dest_path;
            st3 = st2\<lparr>ticks := ticks st2 + 1\<rparr>
        in if dry_run then (DryRunComplete, st3)
           else
             case migrate ev session_id source_dir dest_dir source_index session_idx
                    dest_index new_session_data st3 of
               (None, st4) \<Rightarrow> (Moved, st4)
             | (Some (s, e), st4) \<Rightarrow>
                 (case rollback ev session_id dest_dir st4 of
                    (None, st5) \<Rightarrow> (RolledBack s e, st5)
                  | (Some e', st5) \<Rightarrow> (RollbackFailed s e e', st5)))))))"

section \<open>The order of commits and deletions\<close>

text \<open>
  The spec's invariant on the trace of a run, in its words: a deletion of the source log
  file or of the source auxiliary directory comes only after a destination index write
  that returned and, when the session was in the source index, after a source index write
  that returned. \<open>ordered_rev\<close> reads the trace latest event first.
\<close>

fun ordered_rev :: "path \<Rightarrow> path \<Rightarrow> string \<Rightarrow> string \<Rightarrow> bool \<Rightarrow> event list \<Rightarrow> bool" where
  "ordered_rev sj ss sd dd indexed [] = True"
| "ordered_rev sj ss sd dd indexed ((a, ok) # earlier) =
     ((if a = UnlinkOp sj \<or> a = RmtreeOp ss
       then (SaveOp dd, True) \<in> set earlier \<and> (if indexed then (SaveOp sd, True) \<in> set earlier else True)
       else True)
      \<and> ordered_rev sj ss sd dd indexed earlier)"

definition deletions_follow_commits :: "string \<Rightarrow> string \<Rightarrow> string \<Rightarrow> bool \<Rightarrow> event list \<Rightarrow> bool" where
  "deletions_follow_commits session_id source_dir dest_dir indexed tr =
     ordered_rev (source_dir, session_id @ ''.jsonl'') (source_dir, session_id)
       source_dir dest_dir indexed (rev tr)"

section \<open>Scenarios\<close>

text \<open>
  Concrete environments and file systems on which the theorems below are instantiated:
  a source project \<^verbatim>\<open>/a\<close> (directory \<^verbatim>\<open>-a\<close>) with an index, the log file and the
  auxiliary directory of session \<^verbatim>\<open>s1\<close>, and a clock that advances by a second at
  each reading.
\<close>

definition demo_clock :: "nat \<Rightarrow> string" where
  "demo_clock n = (if n = 0 then ''2026-11-03T12:00:00''
                   else if n = 1 then ''2026-11-03T12:00:01'' else ''2026-11-03T12:00:02'')"

definition demo_env :: env where
  "demo_env = \<lparr>root = ''/home/alice/.claude/projects'', clock = demo_clock, fault = (\<lambda>s. None)\<rparr>"

definition mk_entry :: "string \<Rightarrow> string \<Rightarrow> string \<Rightarrow> entry" where
  "mk_entry sid summary modified =
     [(''sessionId'', JStr sid),
      (''fullPath'', JStr (''/home/alice/.claude/projects/-a/'' @ sid @ ''.jsonl'')),
      (''projectPath'', JStr ''/a''),
      (''summary'', JStr summary),
      (''created'', JStr ''2026-01-01T09:00:00''),
      (''modified'', JStr modified)]"

definition demo_index :: "entry list \<Rightarrow> index" where
  "demo_index es = \<lparr>version = 1, entries = Some es, originalPath = ''/a''\<rparr>"

definition demo_fs :: "entry list \<Rightarrow> fs" where
  "demo_fs es =
     [''-a'' \<mapsto> [index_name \<mapsto> File (Json (demo_index es)),
                ''s1.jsonl'' \<mapsto> File (Bytes ''0123456789''),
                ''s1'' \<mapsto> Dir [(''notes.txt'', Bytes ''n'')]]]"

definition demo_state :: "entry list \<Rightarrow> state" where
  "demo_state es = \<lparr>fs = demo_fs es, ticks = 0, trace = []\<rparr>"

definition dup_entries :: "entry list" where
  "dup_entries = [mk_entry ''s0'' ''Other'' ''2026-01-02T10:00:00'',
                  mk_entry ''s1'' ''First copy'' ''2026-01-03T10:00:00'',
                  mk_entry ''s1'' ''Second copy'' ''2026-01-04T10:00:00'']"

definition fault_at :: "site \<Rightarrow> fault \<Rightarrow> env" where
  "fault_at s flt = demo_env\<lparr>fault := (\<lambda>s'. if s' = s then Some flt else None)\<rparr>"

definition fix_bug :: entry where
  "fix_bug = mk_entry ''s1'' ''Fix bug'' ''2026-01-02T10:00:00''"

definition demo_state2 :: "entry list \<Rightarrow> (string \<rightharpoonup> node) \<Rightarrow> state" where
  "demo_state2 es dest_children =
     \<lparr>fs = (demo_fs es)(''-b'' \<mapsto> dest_children), ticks = 0, trace = []\<rparr>"

definition listing_s1 :: "string \<rightharpoonup> node" where
  "listing_s1 =
     [index_name \<mapsto> File (Json \<lparr>version = 1,
        entries = Some [[(''sessionId'', JStr ''s1''), (''summary'', JStr ''Already here'')]],
        originalPath = ''/b''\<rparr>)]"

definition file_named_s1 :: "string \<rightharpoonup> node" where
  "file_named_s1 = [''s1'' \<mapsto> File (Bytes ''x'')]"

section \<open>Replacing one character\<close>

lemma str_replace_char:
  "str_replace [a] [b] s = map (\<lambda>c. if c = a then b else c) s"
proof (induction s)
  case Nil
  show ?case by (subst str_replace.simps) simp
next
  case (Cons c cs)
  show ?case by (subst str_replace.simps) (simp add: Cons.IH)
qed

lemma re_sub_class_char:
  "re_sub_class cls [b] s = map (\<lambda>c. if c \<in> set cls then b else c) s"
  by (induction s) (simp_all add: re_sub_class_def)

section \<open>The file system: lookups after a change\<close>

lemma lookup_store: "lookup (store f p n) q = (if q = p then Some n else lookup f q)"
  by (cases p; cases q) (auto simp: lookup_def store_def children_def split: option.splits)

lemma lookup_remove: "lookup (remove f p) q = (if q = p then None else lookup f q)"
  by (cases p; cases q) (auto simp: lookup_def remove_def split: option.splits)

lemma dir_exists_store: "dir_exists (store f p n) d = (d = fst p \<or> dir_exists f d)"
  by (auto simp: dir_exists_def store_def)

lemma dir_exists_remove: "dir_exists (remove f p) d = dir_exists f d"
  by (auto simp: dir_exists_def remove_def split: option.splits)

lemma lookup_new_dir: "lookup (f(d \<mapsto> children f d)) q = lookup f q"
  by (cases q) (auto simp: lookup_def children_def split: option.splits)

lemma dir_exists_new_dir: "dir_exists (f(d \<mapsto> kids)) d' = (d' = d \<or> dir_exists f d')"
  by (auto simp: dir_exists_def)

lemma path_exists_dir: "path_exists f p \<Longrightarrow> dir_exists f (fst p)"
  by (auto simp: path_exists_def lookup_def dir_exists_def split: option.splits)

lemma lookup_partial_effect: "q \<noteq> p \<Longrightarrow> lookup (partial_effect flt p f) q = lookup f q"
  by (simp add: partial_effect_def lookup_store split: fault.splits)

lemma dir_exists_partial_effect:
  "dir_exists f (fst p) \<Longrightarrow> dir_exists (partial_effect flt p f) d = dir_exists f d"
  by (auto simp add: partial_effect_def dir_exists_store split: fault.splits)

lemma jsonl_not_index: "sid @ ''.jsonl'' \<noteq> index_name"
proof
  assume "sid @ ''.jsonl'' = index_name"
  then have "last (sid @ ''.jsonl'') = last index_name" by simp
  then show False by (simp add: index_name_def)
qed

lemma no_Some_pair: "(\<forall>a b. x \<noteq> Some (a, b)) = (x = None)"
  by (cases x) auto

subsection \<open>What each call leaves alone\<close>

lemmas op_defs = raised_def returned_def interrupted_def

lemma mkdir_lookup: "lookup (fs (snd (mkdir ev s d st))) q = lookup (fs st) q"
  by (simp add: mkdir_def op_defs lookup_new_dir split: option.splits)

lemma copy2_frame:
  "q \<noteq> dst \<Longrightarrow> lookup (fs (snd (copy2 ev s src dst st))) q = lookup (fs st) q"
  by (simp add: copy2_def op_defs Let_def lookup_store lookup_partial_effect
        split: option.splits node.splits)

lemma copytree_frame:
  "q \<noteq> dst \<Longrightarrow> lookup (fs (snd (copytree ev s src dst st))) q = lookup (fs st) q"
  by (simp add: copytree_def op_defs Let_def lookup_store lookup_partial_effect
        split: option.splits node.splits)

lemma save_frame:
  "q \<noteq> (d, index_name) \<Longrightarrow>
     lookup (fs (snd (save_sessions_index ev s d idx st))) q = lookup (fs st) q"
  by (simp add: save_sessions_index_def op_defs Let_def lookup_store lookup_partial_effect
        split: option.splits node.splits)

lemma unlink_frame: "q \<noteq> p \<Longrightarrow> lookup (fs (snd (unlink ev s p st))) q = lookup (fs st) q"
  by (simp add: unlink_def op_defs Let_def lookup_remove split: option.splits node.splits)

lemma rmtree_frame: "q \<noteq> p \<Longrightarrow> lookup (fs (snd (rmtree ev s p st))) q = lookup (fs st) q"
  by (simp add: rmtree_def op_defs Let_def lookup_remove lookup_partial_effect
        split: option.splits node.splits)

lemma copy_log_frame:
  "q \<noteq> dst \<Longrightarrow> lookup (fs (snd (copy_log ev src dst st))) q = lookup (fs st) q"
  by (simp add: copy_log_def copy2_frame)

lemma copy_aux_frame:
  "q \<noteq> dst \<Longrightarrow> lookup (fs (snd (copy_aux ev src dst st))) q = lookup (fs st) q"
  by (simp add: copy_aux_def copytree_frame)

lemma commit_dest_frame:
  "q \<noteq> (dd, index_name) \<Longrightarrow>
     lookup (fs (snd (commit_dest ev dd didx new st))) q = lookup (fs st) q"
  by (simp add: commit_dest_def save_frame split: option.splits)

lemma commit_source_frame:
  "q \<noteq> (sd, index_name) \<Longrightarrow>
     lookup (fs (snd (commit_source ev sd sidx sres st))) q = lookup (fs st) q"
  by (simp add: commit_source_def save_frame split: option.splits)

lemma delete_log_frame:
  "q \<noteq> p \<Longrightarrow> lookup (fs (snd (delete_log ev p st))) q = lookup (fs st) q"
  by (simp add: delete_log_def unlink_frame)

lemma delete_aux_frame:
  "q \<noteq> p \<Longrightarrow> lookup (fs (snd (delete_aux ev p st))) q = lookup (fs st) q"
  by (simp add: delete_aux_def rmtree_frame)

subsection \<open>What a call that returned has done\<close>

lemma save_ok:
  "save_sessions_index ev s d idx st = (None, st') \<Longrightarrow>
     lookup (fs st') (d, index_name) = Some (File (Json idx))
     \<and> trace st' = trace st @ [(SaveOp d, True)] \<and> ticks st' = ticks st"
  by (auto simp add: save_sessions_index_def op_defs Let_def lookup_store
        split: option.splits node.splits if_splits)

lemma unlink_ok:
  "unlink ev s p st = (None, st') \<Longrightarrow>
     (\<exists>dta. lookup (fs st) p = Some (File dta)) \<and> lookup (fs st') p = None"
  by (auto simp add: unlink_def op_defs Let_def lookup_remove
        split: option.splits node.splits if_splits)

lemma rmtree_ok:
  "rmtree ev s p st = (None, st') \<Longrightarrow>
     (\<exists>t. lookup (fs st) p = Some (Dir t)) \<and> lookup (fs st') p = None"
  by (auto simp add: rmtree_def op_defs Let_def lookup_remove
        split: option.splits node.splits if_splits)

lemma copytree_ok:
  "copytree ev s src dst st = (None, st') \<Longrightarrow>
     (\<exists>t. lookup (fs st) src = Some (Dir t) \<and> lookup (fs st') dst = Some (Dir t))
     \<and> lookup (fs st) dst = None"
  by (auto simp add: copytree_def op_defs Let_def lookup_store path_exists_def
        split: option.splits node.splits if_splits)

lemma copy2_ok:
  "copy2 ev s src dst st = (None, st') \<Longrightarrow>
     (\<exists>dta. lookup (fs st) src = Some (File dta) \<and>
        (case lookup (fs st) dst of
           Some (Dir t) \<Rightarrow> lookup (fs st') dst = Some (Dir (AList.update (snd src) dta t))
         | _ \<Rightarrow> src \<noteq> dst \<and> lookup (fs st') dst = Some (File dta)))"
  by (auto simp add: copy2_def op_defs Let_def lookup_store path_exists_def
        split: option.splits node.splits if_splits)

lemma commit_dest_ok:
  "commit_dest ev dd didx new st = (None, st') \<Longrightarrow>
     \<exists>des. entries didx = Some des
       \<and> lookup (fs st') (dd, index_name)
           = Some (File (Json (didx\<lparr>entries := Some (des @ [new])\<rparr>)))"
  by (auto simp: commit_dest_def split: option.splits dest: save_ok)

lemma commit_source_ok:
  "commit_source ev sd sidx (Some i) st = (None, st') \<Longrightarrow>
     lookup (fs st') (sd, index_name)
       = Some (File (Json (sidx\<lparr>entries := Some (pop i (get_entries sidx))\<rparr>)))"
  by (auto simp: commit_source_def dest: save_ok)

lemma delete_aux_ok:
  "delete_aux ev p st = (None, st') \<Longrightarrow>
     (lookup (fs st) p = None \<or> (\<exists>t. lookup (fs st) p = Some (Dir t)))
     \<and> lookup (fs st') p = None"
  using rmtree_ok [of ev DeleteAux p st st']
  by (auto simp: delete_aux_def path_exists_def split: if_splits)

lemma delete_log_ok:
  "delete_log ev p st = (None, st') \<Longrightarrow>
     (lookup (fs st) p = None \<or> (\<exists>d. lookup (fs st) p = Some (File d)))
     \<and> lookup (fs st') p = None"
  using unlink_ok [of ev DeleteLog p st st']
  by (auto simp: delete_log_def path_exists_def split: if_splits)

subsection \<open>Loading and locating\<close>

lemma load_cong:
  "lookup f (d, index_name) = lookup f' (d, index_name) \<Longrightarrow>
   load_sessions_index f d op = load_sessions_index f' d op"
  by (simp add: load_sessions_index_def path_exists_def Let_def)

lemma load_found_exists:
  "load_sessions_index f d op = Inr idx \<Longrightarrow> find_session_in_index idx sid = Some r \<Longrightarrow>
   lookup f (d, index_name) = Some (File (Json idx))"
  by (auto simp: load_sessions_index_def Let_def path_exists_def find_session_in_index_def
        get_entries_def split: if_splits option.splits node.splits fdata.splits)

lemma load_Json:
  "lookup f (d, index_name) = Some (File (Json idx)) \<Longrightarrow> load_sessions_index f d op = Inr idx"
  by (simp add: load_sessions_index_def Let_def path_exists_def)

lemma load_ok_cases:
  "load_sessions_index f d op = Inr idx \<Longrightarrow>
     lookup f (d, index_name) = None \<or> lookup f (d, index_name) = Some (File (Json idx))"
  by (auto simp: load_sessions_index_def Let_def path_exists_def
        split: if_splits option.splits node.splits fdata.splits)

lemma locate_frame:
  "locate_session ev sid sd sp sidx st = Some (sres, sdata, st2) \<Longrightarrow>
     fs st2 = fs st \<and> trace st2 = trace st"
  by (auto simp: locate_session_def Let_def split: option.splits if_splits)

lemma locate_indexed:
  "find_session_in_index sidx sid = Some (i, e) \<Longrightarrow>
   locate_session ev sid sd sp sidx st = Some (Some i, e, st)"
  by (simp add: locate_session_def)

lemma locate_unindexed:
  "find_session_in_index sidx sid = None \<Longrightarrow>
   locate_session ev sid sd sp sidx st = Some r \<Longrightarrow>
     path_exists (fs st) (sd, sid @ ''.jsonl'')
     \<and> r = (None, create_session_entry ev (ticks st) sid sd sp, st\<lparr>ticks := ticks st + 2\<rparr>)"
  by (auto simp: locate_session_def split: if_splits)

lemma ensure_dest_dir_ok:
  assumes "ensure_dest_dir ev dd dry st = (None, st1)"
  shows "lookup (fs st1) q = lookup (fs st) q"
    and "dir_exists (fs st1) d = (dir_exists (fs st) d \<or> (d = dd \<and> \<not> dry))"
    and "ticks st1 = ticks st"
  using assms
  by (auto simp: ensure_dest_dir_def mkdir_def op_defs lookup_new_dir dir_exists_new_dir
      split: if_splits option.splits)

subsection \<open>Runs that reach the \<^verbatim>\<open>try\<close> block\<close>

lemma move_session_Moved:
  assumes "move_session ev sid src dst dry st = (Moved, st')"
  shows "\<exists>st1 sidx sres sdata st2 didx.
      \<not> dry \<and> dir_exists (fs st) (get_project_dir src)
    \<and> ensure_dest_dir ev (get_project_dir dst) dry st = (None, st1)
    \<and> load_sessions_index (fs st1) (get_project_dir src) None = Inr sidx
    \<and> locate_session ev sid (get_project_dir src) src sidx st1 = Some (sres, sdata, st2)
    \<and> load_sessions_index (fs st2) (get_project_dir dst) (Some dst) = Inr didx
    \<and> find_session_in_index didx sid = None
    \<and> migrate ev sid (get_project_dir src) (get_project_dir dst) sidx sres didx
         (stage_entry ev (ticks st2) sdata (get_project_dir dst, sid @ ''.jsonl'') dst)
         (st2\<lparr>ticks := ticks st2 + 1\<rparr>) = (None, st')"
  using assms
  by (auto simp add: move_session_def Let_def no_Some_pair
        split: option.splits sum.splits prod.splits if_splits)

lemma move_session_RolledBack:
  assumes "move_session ev sid src dst dry st = (RolledBack s e, st')"
  shows "\<exists>st1 sidx sres sdata st2 didx st4.
      \<not> dry \<and> dir_exists (fs st) (get_project_dir src)
    \<and> ensure_dest_dir ev (get_project_dir dst) dry st = (None, st1)
    \<and> load_sessions_index (fs st1) (get_project_dir src) None = Inr sidx
    \<and> locate_session ev sid (get_project_dir src) src sidx st1 = Some (sres, sdata, st2)
    \<and> load_sessions_index (fs st2) (get_project_dir dst) (Some dst) = Inr didx
    \<and> find_session_in_index didx sid = None
    \<and> migrate ev sid (get_project_dir src) (get_project_dir dst) sidx sres didx
         (stage_entry ev (ticks st2) sdata (get_project_dir dst, sid @ ''.jsonl'') dst)
         (st2\<lparr>ticks := ticks st2 + 1\<rparr>) = (Some (s, e), st4)
    \<and> rollback ev sid (get_project_dir dst) st4 = (None, st')"
  using assms
  by (auto simp add: move_session_def Let_def no_Some_pair
        split: option.splits sum.splits prod.splits if_splits)

lemma migrate_ok:
  assumes "migrate ev sid sd dd sidx sres didx new st = (None, st')"
  shows "\<exists>st1 st2 st3 st4 st5.
      copy_log ev (sd, sid @ ''.jsonl'') (dd, sid @ ''.jsonl'') st = (None, st1)
    \<and> copy_aux ev (sd, sid) (dd, sid) st1 = (None, st2)
    \<and> commit_dest ev dd didx new st2 = (None, st3)
    \<and> commit_source ev sd sidx sres st3 = (None, st4)
    \<and> delete_log ev (sd, sid @ ''.jsonl'') st4 = (None, st5)
    \<and> delete_aux ev (sd, sid) st5 = (None, st')"
  using assms
  by (auto simp: migrate_def Let_def split: prod.splits option.splits)

text \<open>An indexed session can only get past the duplicate check between two different
  directories.\<close>

lemma indexed_dirs_differ:
  assumes "load_sessions_index f sd None = Inr sidx"
    and "find_session_in_index sidx sid = Some (i, e)"
    and "load_sessions_index f dd (Some dp) = Inr didx"
    and "find_session_in_index didx sid = None"
  shows "sd \<noteq> dd"
proof
  assume eq: "sd = dd"
  from assms(1,2) have "lookup f (sd, index_name) = Some (File (Json sidx))"
    by (rule load_found_exists)
  then have "load_sessions_index f dd (Some dp) = Inr sidx"
    using eq by (simp add: load_Json)
  with assms(3) have "didx = sidx" by simp
  with assms(2,4) show False by simp
qed

subsection \<open>The locator's scan and the staged entry\<close>

lemma scan_Some:
  "scan_entries n es sid = Some (i, e) \<Longrightarrow>
     n \<le> i \<and> i - n < length es \<and> es ! (i - n) = e
     \<and> map_of e ''sessionId'' = Some (JStr sid)
     \<and> (\<forall>j < i - n. map_of (es ! j) ''sessionId'' \<noteq> Some (JStr sid))"
proof (induction es arbitrary: n)
  case Nil
  then show ?case by simp
next
  case (Cons x xs)
  show ?case
  proof (cases "map_of x ''sessionId'' = Some (JStr sid)")
    case True
    with Cons.prems show ?thesis by simp
  next
    case False
    with Cons.prems have rec: "scan_entries (Suc n) xs sid = Some (i, e)" by simp
    from Cons.IH [OF rec] have ih: "Suc n \<le> i" "i - Suc n < length xs" "xs ! (i - Suc n) = e"
      "map_of e ''sessionId'' = Some (JStr sid)"
      "\<forall>j < i - Suc n. map_of (xs ! j) ''sessionId'' \<noteq> Some (JStr sid)" by auto
    have "i - n = Suc (i - Suc n)" using ih(1) by simp
    then show ?thesis using ih False
      by (auto simp: nth_Cons split: nat.splits)
  qed
qed

lemma scan_None:
  "(scan_entries n es sid = None) = (\<forall>e \<in> set es. map_of e ''sessionId'' \<noteq> Some (JStr sid))"
  by (induction es arbitrary: n) auto

lemma scan_append:
  "scan_entries n es sid = None \<Longrightarrow>
     scan_entries n (es @ es') sid = scan_entries (n + length es) es' sid"
  by (induction es arbitrary: n) (auto split: if_splits)

lemma stage_entry_keys:
  "map_of (stage_entry ev t e dj dp) k =
     (if k = ''modified'' then Some (JStr (clock ev t))
      else if k = ''projectPath'' then Some (JStr dp)
      else if k = ''fullPath'' then Some (JStr (path_str ev dj))
      else map_of e k)"
  by (simp add: stage_entry_def Let_def update_conv')

subsection \<open>A successful move of an indexed session\<close>

lemma moved_indexed:
  assumes mv: "move_session ev sid src dst dry st = (Moved, st')"
    and ld: "load_sessions_index (fs st) (get_project_dir src) None = Inr sidx"
    and fd: "find_session_in_index sidx sid = Some (i, e)"
  shows "\<exists>didx des.
        load_sessions_index (fs st) (get_project_dir dst) (Some dst) = Inr didx
      \<and> entries didx = Some des \<and> find_session_in_index didx sid = None
      \<and> lookup (fs st') (get_project_dir dst, index_name)
          = Some (File (Json (didx\<lparr>entries := Some (des @
               [stage_entry ev (ticks st) e (get_project_dir dst, sid @ ''.jsonl'') dst])\<rparr>)))
      \<and> lookup (fs st') (get_project_dir src, index_name)
          = Some (File (Json (sidx\<lparr>entries := Some (pop i (get_entries sidx))\<rparr>)))
      \<and> get_project_dir src \<noteq> get_project_dir dst"
proof -
  define sd where "sd = get_project_dir src"
  define dd where "dd = get_project_dir dst"
  from move_session_Moved [OF mv] obtain st1 sidx' sres sdata st2 didx where
    ens: "ensure_dest_dir ev dd dry st = (None, st1)"
    and ld1: "load_sessions_index (fs st1) sd None = Inr sidx'"
    and loc: "locate_session ev sid sd src sidx' st1 = Some (sres, sdata, st2)"
    and ld2: "load_sessions_index (fs st2) dd (Some dst) = Inr didx"
    and nf: "find_session_in_index didx sid = None"
    and mg: "migrate ev sid sd dd sidx' sres didx
         (stage_entry ev (ticks st2) sdata (dd, sid @ ''.jsonl'') dst)
         (st2\<lparr>ticks := ticks st2 + 1\<rparr>) = (None, st')"
    unfolding sd_def dd_def by blast
  have same: "\<And>d op. load_sessions_index (fs st1) d op = load_sessions_index (fs st) d op"
    by (rule load_cong) (rule ensure_dest_dir_ok(1) [OF ens])
  have sidx': "sidx' = sidx" using ld1 ld same unfolding sd_def by simp
  have loc': "sres = Some i" "sdata = e" "st2 = st1"
    using loc locate_indexed [OF fd, of ev sd src st1] unfolding sidx' by simp_all
  have tk: "ticks st1 = ticks st" using ensure_dest_dir_ok(3) [OF ens] by simp
  have ldd: "load_sessions_index (fs st) dd (Some dst) = Inr didx"
    using ld2 same loc'(3) by simp
  have neq: "sd \<noteq> dd"
    using indexed_dirs_differ [OF ld [folded sd_def] fd ldd nf] .
  let ?new = "stage_entry ev (ticks st) e (dd, sid @ ''.jsonl'') dst"
  have mg': "migrate ev sid sd dd sidx (Some i) didx ?new (st1\<lparr>ticks := ticks st1 + 1\<rparr>)
      = (None, st')"
    using mg sidx' loc' tk by simp
  from migrate_ok [OF mg'] obtain m1 m2 m3 m4 m5 where
    s1: "copy_log ev (sd, sid @ ''.jsonl'') (dd, sid @ ''.jsonl'') (st1\<lparr>ticks := ticks st1 + 1\<rparr>) = (None, m1)"
    and s2: "copy_aux ev (sd, sid) (dd, sid) m1 = (None, m2)"
    and s3: "commit_dest ev dd didx ?new m2 = (None, m3)"
    and s4: "commit_source ev sd sidx (Some i) m3 = (None, m4)"
    and s5: "delete_log ev (sd, sid @ ''.jsonl'') m4 = (None, m5)"
    and s6: "delete_aux ev (sd, sid) m5 = (None, st')"
    by blast
  from commit_dest_ok [OF s3] obtain des where
    des: "entries didx = Some des"
    and d3: "lookup (fs m3) (dd, index_name) = Some (File (Json (didx\<lparr>entries := Some (des @ [?new])\<rparr>)))"
    by blast
  have d4: "lookup (fs m4) (dd, index_name) = lookup (fs m3) (dd, index_name)"
    using commit_source_frame [of "(dd, index_name)" sd ev sidx "Some i" m3] s4 neq by simp
  have d5: "lookup (fs m5) (dd, index_name) = lookup (fs m4) (dd, index_name)"
    using delete_log_frame [of "(dd, index_name)" "(sd, sid @ ''.jsonl'')" ev m4] s5 neq by simp
  have d6: "lookup (fs st') (dd, index_name) = lookup (fs m5) (dd, index_name)"
    using delete_aux_frame [of "(dd, index_name)" "(sd, sid)" ev m5] s6 neq by simp
  have c4: "lookup (fs m4) (sd, index_name)
       = Some (File (Json (sidx\<lparr>entries := Some (pop i (get_entries sidx))\<rparr>)))"
    by (rule commit_source_ok [OF s4])
  have c5: "lookup (fs m5) (sd, index_name) = lookup (fs m4) (sd, index_name)"
    using delete_log_frame [of "(sd, index_name)" "(sd, sid @ ''.jsonl'')" ev m4] s5
      jsonl_not_index [of sid] by auto
  have sidne: "sid \<noteq> index_name"
  proof
    assume "sid = index_name"
    with delete_aux_ok [OF s6] c5 c4 show False by auto
  qed
  have c6: "lookup (fs st') (sd, index_name) = lookup (fs m5) (sd, index_name)"
    using delete_aux_frame [of "(sd, index_name)" "(sd, sid)" ev m5] s6 sidne by auto
  show ?thesis
    using ldd des nf d3 d4 d5 d6 c4 c5 c6 neq unfolding sd_def dd_def by auto
qed

subsection \<open>The trace of each call\<close>

lemma mkdir_trace:
  "trace (snd (mkdir ev s d st)) = trace st @ [(MkdirOp d, fst (mkdir ev s d st) = None)]"
  by (simp add: mkdir_def op_defs split: option.splits)

lemma copy2_trace:
  "trace (snd (copy2 ev s src dst st))
     = trace st @ [(Copy2Op src dst, fst (copy2 ev s src dst st) = None)]"
  by (simp add: copy2_def op_defs Let_def split: option.splits node.splits)

lemma copytree_trace:
  "trace (snd (copytree ev s src dst st))
     = trace st @ [(CopytreeOp src dst, fst (copytree ev s src dst st) = None)]"
  by (simp add: copytree_def op_defs Let_def split: option.splits node.splits)

lemma save_trace:
  "trace (snd (save_sessions_index ev s d idx st))
     = trace st @ [(SaveOp d, fst (save_sessions_index ev s d idx st) = None)]"
  by (simp add: save_sessions_index_def op_defs Let_def split: option.splits node.splits)

lemma unlink_trace:
  "trace (snd (unlink ev s p st)) = trace st @ [(UnlinkOp p, fst (unlink ev s p st) = None)]"
  by (simp add: unlink_def op_defs Let_def split: option.splits node.splits)

lemma rmtree_trace:
  "trace (snd (rmtree ev s p st)) = trace st @ [(RmtreeOp p, fst (rmtree ev s p st) = None)]"
  by (simp add: rmtree_def op_defs Let_def split: option.splits node.splits)

subsection \<open>Project directories stay\<close>

lemma copy2_dirs:
  "dir_exists (fs (snd (copy2 ev s src dst st))) d = dir_exists (fs st) d"
  by (auto simp add: copy2_def op_defs Let_def dir_exists_store dir_exists_partial_effect
        split: option.splits node.splits)

lemma copytree_dirs:
  "dir_exists (fs st) (fst dst) \<Longrightarrow>
     dir_exists (fs (snd (copytree ev s src dst st))) d = dir_exists (fs st) d"
  by (auto simp add: copytree_def op_defs Let_def dir_exists_store dir_exists_partial_effect
        split: option.splits node.splits)

lemma save_dirs:
  "dir_exists (fs (snd (save_sessions_index ev s d' idx st))) d = dir_exists (fs st) d"
  by (auto simp add: save_sessions_index_def op_defs Let_def dir_exists_store
        dir_exists_partial_effect split: option.splits node.splits)

lemma unlink_dirs: "dir_exists (fs (snd (unlink ev s p st))) d = dir_exists (fs st) d"
  by (auto simp add: unlink_def op_defs Let_def dir_exists_remove
        split: option.splits node.splits)

lemma rmtree_dirs: "dir_exists (fs (snd (rmtree ev s p st))) d = dir_exists (fs st) d"
proof -
  have "lookup (fs st) p \<noteq> None \<Longrightarrow> dir_exists (fs st) (fst p)"
    using path_exists_dir [of "fs st" p] by (simp add: path_exists_def)
  then show ?thesis
    by (auto simp add: rmtree_def op_defs Let_def dir_exists_remove dir_exists_partial_effect
        split: option.splits node.splits)
qed

subsection \<open>Calls that return\<close>

lemma copy2_runs:
  "lookup (fs st) src = Some (File d) \<Longrightarrow> src \<noteq> dst \<Longrightarrow> dir_exists (fs st) (fst dst) \<Longrightarrow>
   fault ev s = None \<Longrightarrow> fst (copy2 ev s src dst st) = None"
  by (simp add: copy2_def op_defs Let_def split: option.splits node.splits)

lemma copytree_runs:
  "lookup (fs st) src = Some (Dir t) \<Longrightarrow> lookup (fs st) dst = None \<Longrightarrow>
   fault ev s = None \<Longrightarrow> fst (copytree ev s src dst st) = None"
  by (simp add: copytree_def op_defs Let_def path_exists_def)

lemma save_runs:
  "dir_exists (fs st) d \<Longrightarrow> (\<forall>t. lookup (fs st) (d, index_name) \<noteq> Some (Dir t)) \<Longrightarrow>
   fault ev s = None \<Longrightarrow> fst (save_sessions_index ev s d idx st) = None"
  by (simp add: save_sessions_index_def op_defs Let_def split: option.splits node.splits)

lemma unlink_runs:
  "lookup (fs st) p = Some (File d) \<Longrightarrow> fault ev s = None \<Longrightarrow> fst (unlink ev s p st) = None"
  by (simp add: unlink_def op_defs Let_def)

lemma rmtree_runs:
  "lookup (fs st) p = Some (Dir t) \<Longrightarrow> fault ev s = None \<Longrightarrow> fst (rmtree ev s p st) = None"
  by (simp add: rmtree_def op_defs Let_def)

lemma ensure_dest_dir_runs:
  "fault ev MkdirDest = None \<Longrightarrow> fst (ensure_dest_dir ev dd dry st) = None"
  by (simp add: ensure_dest_dir_def mkdir_def op_defs)

lemma ticks_ops:
  "ticks (snd (copy2 ev s src dst st)) = ticks st"
  "ticks (snd (copytree ev s src dst st)) = ticks st"
  "ticks (snd (save_sessions_index ev s d idx st)) = ticks st"
  "ticks (snd (unlink ev s p st)) = ticks st"
  "ticks (snd (rmtree ev s p st)) = ticks st"
  by (simp_all add: copy2_def copytree_def save_sessions_index_def unlink_def rmtree_def
        op_defs Let_def split: option.splits node.splits)

text \<open>The \<^verbatim>\<open>try\<close> block, when nothing fails, for a session that is not in the source
  index.\<close>

lemma migrate_unindexed_runs:
  assumes nofault: "\<forall>s. fault ev s = None"
    and neq: "sd \<noteq> dd"
    and dirs: "dir_exists (fs st) sd" "dir_exists (fs st) dd"
    and log: "lookup (fs st) (sd, sid @ ''.jsonl'') = Some (File dta)"
    and aux: "lookup (fs st) (sd, sid) = None
              \<or> (\<exists>t. lookup (fs st) (sd, sid) = Some (Dir t)) \<and> lookup (fs st) (dd, sid) = None"
    and sidx: "lookup (fs st) (sd, index_name) = None \<or> (\<exists>i. lookup (fs st) (sd, index_name) = Some (File (Json i)))"
    and didx: "lookup (fs st) (dd, index_name) = None \<or> (\<exists>i. lookup (fs st) (dd, index_name) = Some (File (Json i)))"
    and des: "entries didx = Some des"
  shows "fst (migrate ev sid sd dd sidx None didx new st) = None"
proof -
  let ?sj = "(sd, sid @ ''.jsonl'')" and ?dj = "(dd, sid @ ''.jsonl'')"
  let ?ss = "(sd, sid)" and ?ds = "(dd, sid)"
  define m1 where "m1 = snd (copy_log ev ?sj ?dj st)"
  define m2 where "m2 = snd (copy_aux ev ?ss ?ds m1)"
  define m3 where "m3 = snd (commit_dest ev dd didx new m2)"
  define m5 where "m5 = snd (delete_log ev ?sj m3)"
  have nf: "\<And>s. fault ev s = None" using nofault by simp
  have r1: "fst (copy_log ev ?sj ?dj st) = None"
    using copy2_runs [OF log, of ?dj ev CopyLog] neq dirs nf
    by (simp add: copy_log_def)
  have src1: "\<And>q. fst q = sd \<Longrightarrow> lookup (fs m1) q = lookup (fs st) q"
    unfolding m1_def using neq by (intro copy_log_frame) auto
  have d1: "\<And>d. dir_exists (fs m1) d = dir_exists (fs st) d"
    unfolding m1_def by (simp add: copy_log_def copy2_dirs)
  have ds1: "lookup (fs m1) ?ds = lookup (fs st) ?ds"
    unfolding m1_def by (intro copy_log_frame) simp
  have di1: "lookup (fs m1) (dd, index_name) = lookup (fs st) (dd, index_name)"
    unfolding m1_def using jsonl_not_index [of sid] by (intro copy_log_frame) auto
  have notidx: "sid = index_name \<Longrightarrow> lookup (fs st) ?ss = None"
    using aux sidx by auto
  have r2: "fst (copy_aux ev ?ss ?ds m1) = None"
  proof (cases "lookup (fs st) ?ss")
    case None
    then show ?thesis using src1 [of ?ss] by (simp add: copy_aux_def path_exists_def)
  next
    case (Some n)
    with aux obtain t where "lookup (fs st) ?ss = Some (Dir t)" "lookup (fs st) ?ds = None" by auto
    then show ?thesis
      using copytree_runs [of m1 ?ss t ?ds ev CopyAux] src1 [of ?ss] ds1 nf
      by (simp add: copy_aux_def)
  qed
  have src2: "\<And>q. fst q = sd \<Longrightarrow> lookup (fs m2) q = lookup (fs st) q"
    unfolding m2_def using neq src1 by (subst copy_aux_frame) auto
  have d2: "\<And>d. dir_exists (fs m2) d = dir_exists (fs st) d"
    unfolding m2_def using d1 dirs by (simp add: copy_aux_def copytree_dirs)
  have di2: "\<forall>t. lookup (fs m2) (dd, index_name) \<noteq> Some (Dir t)"
  proof (cases "sid = index_name")
    case True
    then have "\<not> path_exists (fs m1) ?ss" using notidx src1 [of ?ss] by (simp add: path_exists_def)
    then have "m2 = m1" unfolding m2_def by (simp add: copy_aux_def)
    then show ?thesis using di1 didx by auto
  next
    case False
    then have "lookup (fs m2) (dd, index_name) = lookup (fs m1) (dd, index_name)"
      unfolding m2_def by (intro copy_aux_frame) auto
    then show ?thesis using di1 didx by auto
  qed
  have r3: "fst (commit_dest ev dd didx new m2) = None"
    using save_runs [of m2 dd ev CommitDest] d2 dirs di2 nf des
    by (simp add: commit_dest_def)
  have src3: "\<And>q. fst q = sd \<Longrightarrow> lookup (fs m3) q = lookup (fs st) q"
    unfolding m3_def using neq src2 by (subst commit_dest_frame) auto
  have r5: "fst (delete_log ev ?sj m3) = None"
    using unlink_runs [of m3 ?sj dta ev DeleteLog] src3 [of ?sj] log nf
    by (simp add: delete_log_def)
  have src5: "lookup (fs m5) ?ss = lookup (fs st) ?ss"
    unfolding m5_def using src3 [of ?ss] by (subst delete_log_frame) auto
  have r6: "fst (delete_aux ev ?ss m5) = None"
  proof (cases "lookup (fs st) ?ss")
    case None
    then show ?thesis using src5 by (simp add: delete_aux_def path_exists_def)
  next
    case (Some n)
    with aux obtain t where "lookup (fs st) ?ss = Some (Dir t)" by auto
    then show ?thesis
      using rmtree_runs [of m5 ?ss t ev DeleteAux] src5 nf by (simp add: delete_aux_def)
  qed
  have e1: "copy_log ev ?sj ?dj st = (None, m1)" using r1 unfolding m1_def by (metis prod.collapse)
  have e2: "copy_aux ev ?ss ?ds m1 = (None, m2)" using r2 unfolding m2_def by (metis prod.collapse)
  have e3: "commit_dest ev dd didx new m2 = (None, m3)" using r3 unfolding m3_def by (metis prod.collapse)
  have e5: "delete_log ev ?sj m3 = (None, m5)" using r5 unfolding m5_def by (metis prod.collapse)
  obtain m6 where e6: "delete_aux ev ?ss m5 = (None, m6)" using r6 by (metis prod.collapse)
  show ?thesis
    by (simp add: migrate_def Let_def e1 e2 e3 e5 e6 commit_source_def)
qed

subsection \<open>A move of a session that is not in the source index\<close>

lemma staged_fresh_entry:
  "stage_entry ev t' (create_session_entry ev t sid sd sp) dj dp =
     [(''sessionId'', JStr sid),
      (''fullPath'', JStr (path_str ev dj)),
      (''projectPath'', JStr dp),
      (''summary'', JStr ''Migrated session''),
      (''created'', JStr (clock ev t)),
      (''modified'', JStr (clock ev t'))]"
  by (simp add: stage_entry_def create_session_entry_def Let_def)

lemma ensure_dest_dir_trace:
  "ensure_dest_dir ev dd dry st = (r, st1) \<Longrightarrow>
     \<exists>b. trace st1 = trace st \<or> trace st1 = trace st @ [(MkdirOp dd, b)]"
  by (auto simp: ensure_dest_dir_def mkdir_def op_defs split: if_splits option.splits)

lemma step_traces:
  "trace (snd (copy_log ev src dst st))
     = trace st @ (if path_exists (fs st) src
                   then [(Copy2Op src dst, fst (copy_log ev src dst st) = None)] else [])"
  "trace (snd (copy_aux ev src dst st))
     = trace st @ (if path_exists (fs st) src
                   then [(CopytreeOp src dst, fst (copy_aux ev src dst st) = None)] else [])"
  "trace (snd (commit_dest ev dd didx new st))
     = trace st @ (if entries didx = None then []
                   else [(SaveOp dd, fst (commit_dest ev dd didx new st) = None)])"
  "trace (snd (commit_source ev sd sidx sres st))
     = trace st @ (if sres = None then []
                   else [(SaveOp sd, fst (commit_source ev sd sidx sres st) = None)])"
  "trace (snd (delete_log ev p st))
     = trace st @ (if path_exists (fs st) p
                   then [(UnlinkOp p, fst (delete_log ev p st) = None)] else [])"
  "trace (snd (delete_aux ev p st))
     = trace st @ (if path_exists (fs st) p
                   then [(RmtreeOp p, fst (delete_aux ev p st) = None)] else [])"
  by (auto simp: copy_log_def copy_aux_def commit_dest_def commit_source_def delete_log_def
        delete_aux_def copy2_trace copytree_trace save_trace unlink_trace rmtree_trace
        split: option.splits)

lemma copy2_same: "fst (copy2 ev s p p st) \<noteq> None"
  by (simp add: copy2_def op_defs Let_def split: option.splits node.splits)

lemma moved_unindexed:
  assumes mv: "move_session ev sid src dst dry st = (Moved, st')"
    and ld: "load_sessions_index (fs st) (get_project_dir src) None = Inr sidx"
    and nfs: "find_session_in_index sidx sid = None"
  shows "get_project_dir src \<noteq> get_project_dir dst
      \<and> (\<exists>didx des.
            load_sessions_index (fs st) (get_project_dir dst) (Some dst) = Inr didx
          \<and> entries didx = Some des
          \<and> lookup (fs st') (get_project_dir dst, index_name)
              = Some (File (Json (didx\<lparr>entries := Some (des @
                  [stage_entry ev (ticks st + 2)
                     (create_session_entry ev (ticks st) sid (get_project_dir src) src)
                     (get_project_dir dst, sid @ ''.jsonl'') dst])\<rparr>))))
      \<and> lookup (fs st') (get_project_dir src, index_name)
          = lookup (fs st) (get_project_dir src, index_name)
      \<and> (\<forall>b. (SaveOp (get_project_dir src), b) \<in> set (trace st')
              \<longrightarrow> (SaveOp (get_project_dir src), b) \<in> set (trace st))"
proof -
  define sd where "sd = get_project_dir src"
  define dd where "dd = get_project_dir dst"
  let ?sj = "(sd, sid @ ''.jsonl'')" and ?dj = "(dd, sid @ ''.jsonl'')"
  let ?ss = "(sd, sid)" and ?ds = "(dd, sid)"
  from move_session_Moved [OF mv] obtain st1 sidx' sres sdata st2 didx where
    ens: "ensure_dest_dir ev dd dry st = (None, st1)"
    and ld1: "load_sessions_index (fs st1) sd None = Inr sidx'"
    and loc: "locate_session ev sid sd src sidx' st1 = Some (sres, sdata, st2)"
    and ld2: "load_sessions_index (fs st2) dd (Some dst) = Inr didx"
    and nf: "find_session_in_index didx sid = None"
    and mg: "migrate ev sid sd dd sidx' sres didx
         (stage_entry ev (ticks st2) sdata ?dj dst)
         (st2\<lparr>ticks := ticks st2 + 1\<rparr>) = (None, st')"
    unfolding sd_def dd_def by blast
  have lk1: "\<And>q. lookup (fs st1) q = lookup (fs st) q"
    by (rule ensure_dest_dir_ok(1) [OF ens])
  have same: "\<And>d op. load_sessions_index (fs st1) d op = load_sessions_index (fs st) d op"
    by (rule load_cong) (rule lk1)
  have sidx': "sidx' = sidx" using ld1 ld same unfolding sd_def by simp
  have tk: "ticks st1 = ticks st" using ensure_dest_dir_ok(3) [OF ens] by simp
  from locate_unindexed [OF nfs loc [unfolded sidx']]
  have ex: "path_exists (fs st1) ?sj" and sres: "sres = None"
    and sdata: "sdata = create_session_entry ev (ticks st) sid sd src"
    and st2: "st2 = st1\<lparr>ticks := ticks st + 2\<rparr>"
    using tk by simp_all
  let ?new = "stage_entry ev (ticks st + 2) (create_session_entry ev (ticks st) sid sd src) ?dj dst"
  let ?st3 = "st1\<lparr>ticks := ticks st + 3\<rparr>"
  have mg': "migrate ev sid sd dd sidx None didx ?new ?st3 = (None, st')"
    using mg unfolding sidx' sres sdata st2 by (simp add: numeral_3_eq_3)
  have ldd: "load_sessions_index (fs st) dd (Some dst) = Inr didx"
    using ld2 same unfolding st2 by simp
  from migrate_ok [OF mg'] obtain m1 m2 m3 m4 m5 where
    s1: "copy_log ev ?sj ?dj ?st3 = (None, m1)"
    and s2: "copy_aux ev ?ss ?ds m1 = (None, m2)"
    and s3: "commit_dest ev dd didx ?new m2 = (None, m3)"
    and s4: "commit_source ev sd sidx None m3 = (None, m4)"
    and s5: "delete_log ev ?sj m4 = (None, m5)"
    and s6: "delete_aux ev ?ss m5 = (None, st')"
    by blast
  have m4: "m4 = m3" using s4 by (simp add: commit_source_def)
  \<comment> \<open>the log cannot be copied onto itself\<close>
  have c2: "copy2 ev CopyLog ?sj ?dj ?st3 = (None, m1)"
    using s1 ex by (simp add: copy_log_def)
  have neq: "sd \<noteq> dd"
  proof
    assume "sd = dd"
    with c2 copy2_same [of ev CopyLog ?dj ?st3] show False by simp
  qed
  \<comment> \<open>the destination index\<close>
  from commit_dest_ok [OF s3] obtain des where
    des: "entries didx = Some des"
    and d3: "lookup (fs m3) (dd, index_name) = Some (File (Json (didx\<lparr>entries := Some (des @ [?new])\<rparr>)))"
    by blast
  have d5: "lookup (fs m5) (dd, index_name) = lookup (fs m3) (dd, index_name)"
    using delete_log_frame [of "(dd, index_name)" ?sj ev m4] s5 neq m4 by simp
  have d6: "lookup (fs st') (dd, index_name) = lookup (fs m5) (dd, index_name)"
    using delete_aux_frame [of "(dd, index_name)" ?ss ev m5] s6 neq by simp
  \<comment> \<open>the source index\<close>
  have i0: "lookup (fs ?st3) (sd, index_name) = lookup (fs st) (sd, index_name)"
    using lk1 by simp
  have i1: "lookup (fs m1) (sd, index_name) = lookup (fs ?st3) (sd, index_name)"
    using copy_log_frame [of "(sd, index_name)" ?dj ev ?sj ?st3] s1 neq by simp
  have i2: "lookup (fs m2) (sd, index_name) = lookup (fs m1) (sd, index_name)"
    using copy_aux_frame [of "(sd, index_name)" ?ds ev ?ss m1] s2 neq by simp
  have i3: "lookup (fs m3) (sd, index_name) = lookup (fs m2) (sd, index_name)"
    using commit_dest_frame [of "(sd, index_name)" dd ev didx ?new m2] s3 neq by simp
  have i5: "lookup (fs m5) (sd, index_name) = lookup (fs m3) (sd, index_name)"
    using delete_log_frame [of "(sd, index_name)" ?sj ev m4] s5 m4 jsonl_not_index [of sid]
    by auto
  have i6: "lookup (fs st') (sd, index_name) = lookup (fs m5) (sd, index_name)"
  proof (cases "sid = index_name")
    case True
    from load_ok_cases [OF ld] have "lookup (fs st) ?ss = None
        \<or> lookup (fs st) ?ss = Some (File (Json sidx))"
      unfolding sd_def True .
    moreover have "lookup (fs m5) ?ss = lookup (fs st) ?ss"
      using i0 i1 i2 i3 i5 True by simp
    ultimately show ?thesis using delete_aux_ok [OF s6] True by auto
  next
    case False
    then show ?thesis
      using delete_aux_frame [of "(sd, index_name)" ?ss ev m5] s6 by auto
  qed
  \<comment> \<open>the trace\<close>
  have t0: "trace ?st3 = trace st1" by simp
  from ensure_dest_dir_trace [OF ens] obtain b0 where
    t1: "trace st1 = trace st \<or> trace st1 = trace st @ [(MkdirOp dd, b0)]" by blast
  have t1': "\<And>b. (SaveOp sd, b) \<in> set (trace st1) \<Longrightarrow> (SaveOp sd, b) \<in> set (trace st)"
    using t1 neq by auto
  have ta: "\<And>b. (SaveOp sd, b) \<in> set (trace m1) \<Longrightarrow> (SaveOp sd, b) \<in> set (trace st1)"
    using step_traces(1) [of ev ?sj ?dj ?st3] s1 by (auto split: if_splits)
  have tb: "\<And>b. (SaveOp sd, b) \<in> set (trace m2) \<Longrightarrow> (SaveOp sd, b) \<in> set (trace m1)"
    using step_traces(2) [of ev ?ss ?ds m1] s2 by (auto split: if_splits)
  have tc: "\<And>b. (SaveOp sd, b) \<in> set (trace m3) \<Longrightarrow> (SaveOp sd, b) \<in> set (trace m2)"
    using step_traces(3) [of ev dd didx ?new m2] s3 neq by (auto split: if_splits)
  have td: "\<And>b. (SaveOp sd, b) \<in> set (trace m5) \<Longrightarrow> (SaveOp sd, b) \<in> set (trace m3)"
    using step_traces(5) [of ev ?sj m4] s5 m4 by (auto split: if_splits)
  have te: "\<And>b. (SaveOp sd, b) \<in> set (trace st') \<Longrightarrow> (SaveOp sd, b) \<in> set (trace m5)"
    using step_traces(6) [of ev ?ss m5] s6 by (auto split: if_splits)
  have tr: "\<forall>b. (SaveOp sd, b) \<in> set (trace st') \<longrightarrow> (SaveOp sd, b) \<in> set (trace st)"
    using ta tb tc td te t1' by blast
  show ?thesis
    using neq ldd des d3 d5 d6 i0 i1 i2 i3 i5 i6 tr unfolding sd_def dd_def by auto
qed

lemma unindexed_move_runs:
  assumes nofault: "\<forall>s. fault ev s = None"
    and neq: "get_project_dir src \<noteq> get_project_dir dst"
    and dir: "dir_exists (fs st) (get_project_dir src)"
    and ld: "load_sessions_index (fs st) (get_project_dir src) None = Inr sidx"
    and nfs: "find_session_in_index sidx sid = None"
    and log: "lookup (fs st) (get_project_dir src, sid @ ''.jsonl'') = Some (File dta)"
    and aux: "lookup (fs st) (get_project_dir src, sid) = None
              \<or> (\<exists>t. lookup (fs st) (get_project_dir src, sid) = Some (Dir t))
                \<and> lookup (fs st) (get_project_dir dst, sid) = None"
    and ldd: "load_sessions_index (fs st) (get_project_dir dst) (Some dst) = Inr didx"
    and des: "entries didx = Some des"
    and nfd: "find_session_in_index didx sid = None"
  shows "fst (move_session ev sid src dst False st) = Moved"
proof -
  define sd where "sd = get_project_dir src"
  define dd where "dd = get_project_dir dst"
  obtain st1 where ens: "ensure_dest_dir ev dd False st = (None, st1)"
    using ensure_dest_dir_runs [of ev dd False st] nofault by (metis prod.collapse)
  have lk1: "\<And>q. lookup (fs st1) q = lookup (fs st) q"
    by (rule ensure_dest_dir_ok(1) [OF ens])
  have d1: "dir_exists (fs st1) sd" "dir_exists (fs st1) dd"
    using ensure_dest_dir_ok(2) [OF ens] dir unfolding sd_def by simp_all
  have same: "\<And>d op. load_sessions_index (fs st1) d op = load_sessions_index (fs st) d op"
    by (rule load_cong) (rule lk1)
  let ?sdata = "create_session_entry ev (ticks st1) sid sd src"
  let ?st2 = "st1\<lparr>ticks := ticks st1 + 2\<rparr>"
  let ?st3 = "?st2\<lparr>ticks := ticks ?st2 + 1\<rparr>"
  have loc: "locate_session ev sid sd src sidx st1 = Some (None, ?sdata, ?st2)"
    using nfs log lk1 unfolding sd_def by (simp add: locate_session_def path_exists_def)
  have mg: "fst (migrate ev sid sd dd sidx None didx
               (stage_entry ev (ticks ?st2) ?sdata (dd, sid @ ''.jsonl'') dst) ?st3) = None"
  proof (rule migrate_unindexed_runs [OF nofault _ _ _ _ _ _ _ des])
    show "sd \<noteq> dd" using neq unfolding sd_def dd_def .
    show "dir_exists (fs ?st3) sd" "dir_exists (fs ?st3) dd" using d1 by simp_all
    show "lookup (fs ?st3) (sd, sid @ ''.jsonl'') = Some (File dta)"
      using log lk1 unfolding sd_def by simp
    show "lookup (fs ?st3) (sd, sid) = None
          \<or> (\<exists>t. lookup (fs ?st3) (sd, sid) = Some (Dir t)) \<and> lookup (fs ?st3) (dd, sid) = None"
      using aux lk1 unfolding sd_def dd_def by simp
    show "lookup (fs ?st3) (sd, index_name) = None
          \<or> (\<exists>i. lookup (fs ?st3) (sd, index_name) = Some (File (Json i)))"
      using load_ok_cases [OF ld] lk1 unfolding sd_def by auto
    show "lookup (fs ?st3) (dd, index_name) = None
          \<or> (\<exists>i. lookup (fs ?st3) (dd, index_name) = Some (File (Json i)))"
      using load_ok_cases [OF ldd] lk1 unfolding dd_def by auto
  qed
  then obtain st4 where mg': "migrate ev sid sd dd sidx None didx
               (stage_entry ev (ticks ?st2) ?sdata (dd, sid @ ''.jsonl'') dst) ?st3 = (None, st4)"
    by (metis prod.collapse)
  have l1: "load_sessions_index (fs st1) sd None = Inr sidx" using ld same unfolding sd_def by simp
  have l2: "load_sessions_index (fs ?st2) dd (Some dst) = Inr didx"
    using ldd same unfolding dd_def by simp
  show ?thesis
    using dir ens l1 loc l2 nfd mg'
    by (simp add: move_session_def Let_def sd_def [symmetric] dd_def [symmetric])
qed

subsection \<open>Aborts of the validation phase\<close>

lemma ensure_dest_dir_cases:
  assumes "ensure_dest_dir ev dd dry st = (None, st1)"
  shows "st1 = st
       \<or> (\<not> dry \<and> \<not> dir_exists (fs st) dd
          \<and> st1 = st\<lparr>fs := (fs st)(dd \<mapsto> Map.empty), trace := trace st @ [(MkdirOp dd, True)]\<rparr>)"
  using assms
  by (auto simp: ensure_dest_dir_def mkdir_def op_defs children_def dir_exists_def
      split: if_splits option.splits)

lemma move_session_abort:
  assumes "move_session ev sid src dst dry st = (out, st')"
    and "out = SessionNotFound \<or> out = DuplicateSession"
  shows "\<exists>st1 sidx.
      ensure_dest_dir ev (get_project_dir dst) dry st = (None, st1)
    \<and> load_sessions_index (fs st1) (get_project_dir src) None = Inr sidx
    \<and> (out = SessionNotFound \<and> st' = st1
       \<or> out = DuplicateSession
         \<and> (\<exists>sres sdata didx.
              locate_session ev sid (get_project_dir src) src sidx st1 = Some (sres, sdata, st')
            \<and> load_sessions_index (fs st') (get_project_dir dst) (Some dst) = Inr didx
            \<and> find_session_in_index didx sid \<noteq> None))"
  using assms
  by (auto simp add: move_session_def Let_def
        split: option.splits sum.splits prod.splits if_splits)

lemma fresh_dir_no_duplicate:
  "find_session_in_index
     (projr (load_sessions_index (f(dd \<mapsto> Map.empty)) dd op)) sid = None"
  by (simp add: load_sessions_index_def path_exists_def lookup_def Let_def
        find_session_in_index_def get_entries_def)

subsection \<open>Rollback\<close>

lemma rollback_ok:
  assumes "rollback ev sid dd st = (None, st')"
  obtains st2 :: state and idx where
       "lookup (fs st2) (dd, index_name) = lookup (fs st) (dd, index_name)
          \<or> lookup (fs st2) (dd, index_name) = None"
     and "load_sessions_index (fs st2) dd None = Inr idx"
     and "lookup (fs st') (dd, index_name)
         = Some (File (Json (idx\<lparr>entries :=
              Some (filter (\<lambda>s. map_of s ''sessionId'' \<noteq> Some (JStr sid)) (get_entries idx))\<rparr>)))"
     and "trace st' = trace st2 @ [(SaveOp dd, True)]"
proof -
  let ?dj = "(dd, sid @ ''.jsonl'')" and ?ds = "(dd, sid)"
  from assms obtain st1 st2 where u: "rollback_log ev ?dj st = (None, st1)"
    and r: "rollback_aux ev ?ds st1 = (None, st2)"
    and x: "rollback_index ev sid dd st2 = (None, st')"
    by (auto simp: rollback_def Let_def split: prod.splits option.splits)
  from x obtain idx where
    ld: "load_sessions_index (fs st2) dd None = Inr idx"
    and sv: "save_sessions_index ev RollbackIndex dd
               (idx\<lparr>entries := Some (filter (\<lambda>s. map_of s ''sessionId'' \<noteq> Some (JStr sid))
                                      (get_entries idx))\<rparr>) st2 = (None, st')"
    by (auto simp: rollback_index_def split: sum.splits)
  have k1: "lookup (fs st1) (dd, index_name) = lookup (fs st) (dd, index_name)"
    using u unlink_frame [of "(dd, index_name)" ?dj ev RollbackLog st] jsonl_not_index [of sid]
    by (auto simp: rollback_log_def split: if_splits)
  have k2: "lookup (fs st2) (dd, index_name) = lookup (fs st1) (dd, index_name)
          \<or> lookup (fs st2) (dd, index_name) = None"
  proof (cases "sid = index_name")
    case True
    then show ?thesis using r rmtree_ok [of ev RollbackAux ?ds st1 st2]
      by (auto simp: rollback_aux_def split: if_splits)
  next
    case False
    then show ?thesis
      using r rmtree_frame [of "(dd, index_name)" ?ds ev RollbackAux st1]
      by (auto simp: rollback_aux_def split: if_splits)
  qed
  have k: "lookup (fs st2) (dd, index_name) = lookup (fs st) (dd, index_name)
          \<or> lookup (fs st2) (dd, index_name) = None"
    using k1 k2 by auto
  from save_ok [OF sv] have
    f: "lookup (fs st') (dd, index_name)
         = Some (File (Json (idx\<lparr>entries :=
              Some (filter (\<lambda>s. map_of s ''sessionId'' \<noteq> Some (JStr sid)) (get_entries idx))\<rparr>)))"
    and t: "trace st' = trace st2 @ [(SaveOp dd, True)]"
    by simp_all
  show ?thesis
    by (rule that [OF k ld f t])
qed

lemma copytree_not_dir:
  "\<forall>t. lookup (fs st) src \<noteq> Some (Dir t) \<Longrightarrow> fs (snd (copytree ev s src dst st)) = fs st"
  by (auto simp: copytree_def op_defs Let_def split: option.splits node.splits)

lemma migrate_fails_early:
  assumes "migrate ev sid sd dd sidx sres didx new st = (Some (s, e), st4)"
    and "s = CopyLog \<or> s = CopyAux"
  shows "st4 = snd (copy_log ev (sd, sid @ ''.jsonl'') (dd, sid @ ''.jsonl'') st)
       \<or> (\<exists>m1. copy_log ev (sd, sid @ ''.jsonl'') (dd, sid @ ''.jsonl'') st = (None, m1)
              \<and> copy_aux ev (sd, sid) (dd, sid) m1 = (Some e, st4))"
  using assms
  by (auto simp: migrate_def Let_def split: prod.splits option.splits)

lemma filter_scan_None:
  "scan_entries n (filter (\<lambda>s. map_of s ''sessionId'' \<noteq> Some (JStr sid)) es) sid = None"
  by (simp add: scan_None)

lemma follow_snoc:
  "deletions_follow_commits sid sd dd indexed (tr @ [(a, ok)]) =
     ((a = UnlinkOp (sd, sid @ ''.jsonl'') \<or> a = RmtreeOp (sd, sid)
         \<longrightarrow> (SaveOp dd, True) \<in> set tr \<and> (indexed \<longrightarrow> (SaveOp sd, True) \<in> set tr))
      \<and> deletions_follow_commits sid sd dd indexed tr)"
  by (auto simp: deletions_follow_commits_def)

subsection \<open>Commits before deletions, between two different directories\<close>

lemma step_trace_rel:
  "copy_log ev src dst st = (r, st') \<Longrightarrow>
     trace st' = trace st @ (if path_exists (fs st) src then [(Copy2Op src dst, r = None)] else [])"
  "copy_aux ev src dst st = (r, st') \<Longrightarrow>
     trace st' = trace st @ (if path_exists (fs st) src then [(CopytreeOp src dst, r = None)] else [])"
  "commit_dest ev dd didx new st = (r, st') \<Longrightarrow>
     trace st' = trace st @ (if entries didx = None then [] else [(SaveOp dd, r = None)])"
  "commit_source ev sd sidx sres st = (r, st') \<Longrightarrow>
     trace st' = trace st @ (if sres = None then [] else [(SaveOp sd, r = None)])"
  "delete_log ev p st = (r, st') \<Longrightarrow>
     trace st' = trace st @ (if path_exists (fs st) p then [(UnlinkOp p, r = None)] else [])"
  "delete_aux ev p st = (r, st') \<Longrightarrow>
     trace st' = trace st @ (if path_exists (fs st) p then [(RmtreeOp p, r = None)] else [])"
  using step_traces(1) [of ev src dst st] step_traces(2) [of ev src dst st]
    step_traces(3) [of ev dd didx new st] step_traces(4) [of ev sd sidx sres st]
    step_traces(5) [of ev p st] step_traces(6) [of ev p st]
  by simp_all

lemma commit_dest_entries:
  "commit_dest ev dd didx new st = (None, st') \<Longrightarrow> entries didx \<noteq> None"
  by (auto simp: commit_dest_def split: option.splits)

lemma migrate_ordered:
  assumes neq: "sd \<noteq> dd"
    and pre: "deletions_follow_commits sid sd dd indexed (trace st)"
    and idx: "indexed \<longrightarrow> sres \<noteq> None"
  shows "deletions_follow_commits sid sd dd indexed
           (trace (snd (migrate ev sid sd dd sidx sres didx new st)))"
proof -
  let ?sj = "(sd, sid @ ''.jsonl'')" and ?dj = "(dd, sid @ ''.jsonl'')"
  let ?ss = "(sd, sid)" and ?ds = "(dd, sid)"
  let ?P = "deletions_follow_commits sid sd dd indexed"
  obtain r1 m1 where s1: "copy_log ev ?sj ?dj st = (r1, m1)" by (cases "copy_log ev ?sj ?dj st")
  obtain r2 m2 where s2: "copy_aux ev ?ss ?ds m1 = (r2, m2)" by (cases "copy_aux ev ?ss ?ds m1")
  obtain r3 m3 where s3: "commit_dest ev dd didx new m2 = (r3, m3)"
    by (cases "commit_dest ev dd didx new m2")
  obtain r4 m4 where s4: "commit_source ev sd sidx sres m3 = (r4, m4)"
    by (cases "commit_source ev sd sidx sres m3")
  obtain r5 m5 where s5: "delete_log ev ?sj m4 = (r5, m5)" by (cases "delete_log ev ?sj m4")
  obtain r6 m6 where s6: "delete_aux ev ?ss m5 = (r6, m6)" by (cases "delete_aux ev ?ss m5")
  note t1 = step_trace_rel(1) [OF s1] and t2 = step_trace_rel(2) [OF s2]
    and t3 = step_trace_rel(3) [OF s3] and t4 = step_trace_rel(4) [OF s4]
    and t5 = step_trace_rel(5) [OF s5] and t6 = step_trace_rel(6) [OF s6]
  have p1: "?P (trace m1)" using pre t1 by (simp add: follow_snoc)
  have p2: "?P (trace m2)" using p1 t2 by (simp add: follow_snoc)
  have p3: "?P (trace m3)" using p2 t3 by (simp add: follow_snoc)
  have p4: "?P (trace m4)" using p3 t4 by (simp add: follow_snoc)
  have c3: "r3 = None \<Longrightarrow> (SaveOp dd, True) \<in> set (trace m3)"
    using t3 commit_dest_entries [of ev dd didx new m2 m3] s3 by auto
  have c4: "r3 = None \<Longrightarrow> (SaveOp dd, True) \<in> set (trace m4)"
    using c3 t4 by auto
  have c4': "r4 = None \<Longrightarrow> indexed \<Longrightarrow> (SaveOp sd, True) \<in> set (trace m4)"
    using t4 idx by auto
  have p5: "r3 = None \<Longrightarrow> r4 = None \<Longrightarrow> ?P (trace m5)"
    using p4 t5 c4 c4' by (simp add: follow_snoc)
  have c5: "r3 = None \<Longrightarrow> (SaveOp dd, True) \<in> set (trace m5)"
    using c4 t5 by auto
  have c5': "r4 = None \<Longrightarrow> indexed \<Longrightarrow> (SaveOp sd, True) \<in> set (trace m5)"
    using c4' t5 by auto
  have p6: "r3 = None \<Longrightarrow> r4 = None \<Longrightarrow> ?P (trace m6)"
    using p5 t6 c5 c5' by (simp add: follow_snoc)
  show ?thesis
    using s1 s2 s3 s4 s5 s6 p1 p2 p3 p4 p5 p6
    by (auto simp: migrate_def Let_def split: option.splits)
qed

lemma save_trace_rel:
  "save_sessions_index ev s d idx st = (r, st') \<Longrightarrow> trace st' = trace st @ [(SaveOp d, r = None)]"
  using save_trace [of ev s d idx st] by simp

lemma rollback_trace_rel:
  "rollback_log ev p st = (r, st') \<Longrightarrow>
     trace st' = trace st @ (if path_exists (fs st) p then [(UnlinkOp p, r = None)] else [])"
  "rollback_aux ev p st = (r, st') \<Longrightarrow>
     trace st' = trace st @ (if path_exists (fs st) p then [(RmtreeOp p, r = None)] else [])"
  "rollback_index ev sid dd st = (r, st') \<Longrightarrow>
     trace st' = trace st \<or> trace st' = trace st @ [(SaveOp dd, r = None)]"
proof -
  show "rollback_log ev p st = (r, st') \<Longrightarrow>
     trace st' = trace st @ (if path_exists (fs st) p then [(UnlinkOp p, r = None)] else [])"
    using unlink_trace [of ev RollbackLog p st]
    by (auto simp: rollback_log_def split: if_splits)
  show "rollback_aux ev p st = (r, st') \<Longrightarrow>
     trace st' = trace st @ (if path_exists (fs st) p then [(RmtreeOp p, r = None)] else [])"
    using rmtree_trace [of ev RollbackAux p st]
    by (auto simp: rollback_aux_def split: if_splits)
  show "rollback_index ev sid dd st = (r, st') \<Longrightarrow>
     trace st' = trace st \<or> trace st' = trace st @ [(SaveOp dd, r = None)]"
    by (auto simp: rollback_index_def split: sum.splits dest: save_trace_rel)
qed

lemma rollback_ordered:
  assumes neq: "sd \<noteq> dd"
    and pre: "deletions_follow_commits sid sd dd indexed (trace st)"
  shows "deletions_follow_commits sid sd dd indexed (trace (snd (rollback ev sid dd st)))"
proof -
  let ?dj = "(dd, sid @ ''.jsonl'')" and ?ds = "(dd, sid)"
  let ?P = "deletions_follow_commits sid sd dd indexed"
  obtain ru su where u: "rollback_log ev ?dj st = (ru, su)" by (cases "rollback_log ev ?dj st")
  obtain rr sr where r: "rollback_aux ev ?ds su = (rr, sr)" by (cases "rollback_aux ev ?ds su")
  obtain rx sx where x: "rollback_index ev sid dd sr = (rx, sx)"
    by (cases "rollback_index ev sid dd sr")
  have p1: "?P (trace su)"
    using rollback_trace_rel(1) [OF u] pre neq by (simp add: follow_snoc)
  have p2: "?P (trace sr)"
    using rollback_trace_rel(2) [OF r] p1 neq by (simp add: follow_snoc)
  have p3: "?P (trace sx)"
    using rollback_trace_rel(3) [OF x] p2 by (auto simp add: follow_snoc)
  show ?thesis
    using u r x p1 p2 p3
    by (auto simp: rollback_def Let_def split: option.splits)
qed

lemma ensure_dest_dir_lookup:
  "lookup (fs (snd (ensure_dest_dir ev dd dry st))) q = lookup (fs st) q"
  by (simp add: ensure_dest_dir_def mkdir_lookup)

lemma locate_result:
  "locate_session ev sid sd sp sidx st = Some (sres, sdata, st2) \<Longrightarrow>
     (find_session_in_index sidx sid \<noteq> None \<longrightarrow> sres \<noteq> None)"
  by (auto simp: locate_session_def Let_def split: option.splits if_splits)

lemma deletions_follow_commits_distinct_dirs:
  assumes neq: "get_project_dir src \<noteq> get_project_dir dst"
    and pre: "deletions_follow_commits sid (get_project_dir src) (get_project_dir dst)
                (find_session_in_index sidx sid \<noteq> None) (trace st)"
    and ld: "load_sessions_index (fs st) (get_project_dir src) None = Inr sidx"
  shows "deletions_follow_commits sid (get_project_dir src) (get_project_dir dst)
           (find_session_in_index sidx sid \<noteq> None)
           (trace (snd (move_session ev sid src dst dry st)))"
proof -
  let ?sd = "get_project_dir src" and ?dd = "get_project_dir dst"
  let ?P = "deletions_follow_commits sid ?sd ?dd (find_session_in_index sidx sid \<noteq> None)"
  obtain r1 st1 where ens: "ensure_dest_dir ev ?dd dry st = (r1, st1)"
    by (cases "ensure_dest_dir ev ?dd dry st")
  have p1: "?P (trace st1)"
    using ensure_dest_dir_trace [OF ens] pre by (auto simp: follow_snoc)
  have "\<And>q. lookup (fs st1) q = lookup (fs st) q"
    using ensure_dest_dir_lookup [of ev ?dd dry st] ens by simp
  then have ld1: "load_sessions_index (fs st1) ?sd None = Inr sidx"
    using ld load_cong [of "fs st1" ?sd "fs st" None] by simp
  show ?thesis
  proof (cases "locate_session ev sid ?sd src sidx st1")
    case None
    then show ?thesis
      using ens ld1 p1 pre
      by (simp add: move_session_def Let_def split: option.splits)
  next
    case (Some a)
    then obtain sres sdata st2 where
      loc: "locate_session ev sid ?sd src sidx st1 = Some (sres, sdata, st2)"
      by (cases a) auto
    have p2: "?P (trace st2)" using locate_frame [OF loc] p1 by simp
    have ix: "find_session_in_index sidx sid \<noteq> None \<longrightarrow> sres \<noteq> None"
      using locate_result [OF loc] .
    have pm: "?P (trace m)"
      if "migrate ev sid ?sd ?dd sidx sres didx new s3 = (r, m)" and "trace s3 = trace st2"
      for didx new s3 r m
      using migrate_ordered [OF neq _ ix, where st = s3 and ev = ev and sidx = sidx
          and didx = didx and new = new and sid = sid] p2 that by simp
    have pr: "?P (trace m')"
      if "migrate ev sid ?sd ?dd sidx sres didx new s3 = (r, m)" and "trace s3 = trace st2"
        and "rollback ev sid ?dd m = (r', m')"
      for didx new s3 r m r' m'
      using rollback_ordered [OF neq pm [OF that(1,2)], where ev = ev] that(3) by simp
    show ?thesis
      unfolding move_session_def Let_def
      using pre p1 p2
      by (auto simp: ens ld1 loc split: option.splits sum.splits prod.splits
            dest: pm pr)
  qed
qed

subsection \<open>The source until the deletions\<close>

lemma move_session_failed:
  assumes "move_session ev sid src dst dry st = (out, st')"
    and "out = RolledBack s e \<or> out = RollbackFailed s e e'"
  shows "\<exists>st1 sidx sres sdata st2 didx new st4 r.
      ensure_dest_dir ev (get_project_dir dst) dry st = (None, st1)
    \<and> locate_session ev sid (get_project_dir src) src sidx st1 = Some (sres, sdata, st2)
    \<and> migrate ev sid (get_project_dir src) (get_project_dir dst) sidx sres didx new
         (st2\<lparr>ticks := ticks st2 + 1\<rparr>) = (Some (s, e), st4)
    \<and> rollback ev sid (get_project_dir dst) st4 = (r, st')"
  using assms
  by (auto simp add: move_session_def Let_def
        split: option.splits sum.splits prod.splits if_splits) blast+

lemma save_frame_rel:
  "save_sessions_index ev s d idx st = (r, st') \<Longrightarrow> q \<noteq> (d, index_name) \<Longrightarrow>
     lookup (fs st') q = lookup (fs st) q"
  using save_frame [of q d ev s idx st] by simp

lemma rollback_frame:
  assumes "fst q \<noteq> dd"
  shows "lookup (fs (snd (rollback ev sid dd st))) q = lookup (fs st) q"
proof -
  let ?dj = "(dd, sid @ ''.jsonl'')" and ?ds = "(dd, sid)"
  obtain ru su where u: "rollback_log ev ?dj st = (ru, su)" by (cases "rollback_log ev ?dj st")
  obtain rr sr where r: "rollback_aux ev ?ds su = (rr, sr)" by (cases "rollback_aux ev ?ds su")
  obtain rx sx where x: "rollback_index ev sid dd sr = (rx, sx)"
    by (cases "rollback_index ev sid dd sr")
  have ne: "\<And>x. q \<noteq> (dd, x)" using assms by auto
  have k1: "lookup (fs su) q = lookup (fs st) q"
    using u unlink_frame [of q ?dj ev RollbackLog st] ne
    by (auto simp: rollback_log_def split: if_splits)
  have k2: "lookup (fs sr) q = lookup (fs su) q"
    using r rmtree_frame [of q ?ds ev RollbackAux su] ne
    by (auto simp: rollback_aux_def split: if_splits)
  have k3: "lookup (fs sx) q = lookup (fs sr) q"
  proof (cases "load_sessions_index (fs sr) dd None")
    case (Inl a)
    then show ?thesis using x by (simp add: rollback_index_def)
  next
    case (Inr idx)
    then show ?thesis
      using x ne by (auto simp: rollback_index_def dest: save_frame_rel)
  qed
  show ?thesis
    using u r x k1 k2 k3
    by (auto simp: rollback_def Let_def split: option.splits)
qed

lemma migrate_early_frame:
  assumes mg: "migrate ev sid sd dd sidx sres didx new st = (Some (s, e), st4)"
    and early: "s \<noteq> DeleteLog" "s \<noteq> DeleteAux"
    and q: "fst q \<noteq> dd" "q \<noteq> (sd, index_name)"
  shows "lookup (fs st4) q = lookup (fs st) q"
proof -
  let ?sj = "(sd, sid @ ''.jsonl'')" and ?dj = "(dd, sid @ ''.jsonl'')"
  let ?ss = "(sd, sid)" and ?ds = "(dd, sid)"
  obtain r1 m1 where s1: "copy_log ev ?sj ?dj st = (r1, m1)" by (cases "copy_log ev ?sj ?dj st")
  obtain r2 m2 where s2: "copy_aux ev ?ss ?ds m1 = (r2, m2)" by (cases "copy_aux ev ?ss ?ds m1")
  obtain r3 m3 where s3: "commit_dest ev dd didx new m2 = (r3, m3)"
    by (cases "commit_dest ev dd didx new m2")
  obtain r4 m4 where s4: "commit_source ev sd sidx sres m3 = (r4, m4)"
    by (cases "commit_source ev sd sidx sres m3")
  have ne: "\<And>x. q \<noteq> (dd, x)" using q(1) by auto
  have k1: "lookup (fs m1) q = lookup (fs st) q"
    using copy_log_frame [of q ?dj ev ?sj st] s1 ne by auto
  have k2: "lookup (fs m2) q = lookup (fs m1) q"
    using copy_aux_frame [of q ?ds ev ?ss m1] s2 ne by auto
  have k3: "lookup (fs m3) q = lookup (fs m2) q"
    using commit_dest_frame [of q dd ev didx new m2] s3 ne by auto
  have k4: "lookup (fs m4) q = lookup (fs m3) q"
    using commit_source_frame [of q sd ev sidx sres m3] s4 q by auto
  show ?thesis
    using mg early s1 s2 s3 s4 k1 k2 k3 k4
    by (auto simp: migrate_def Let_def split: option.splits prod.splits)
qed

text \<open>
  The spec's property "source preserved until full commit": when the failure is raised
  before the source artifacts are deleted and the two project directories differ, the
  rollback leaves the source log file and the source auxiliary directory as they were.
\<close>

lemma source_untouched_until_delete:
  assumes mv: "move_session ev sid src dst dry st = (out, st')"
    and out: "out = RolledBack s e \<or> out = RollbackFailed s e e'"
    and early: "s \<noteq> DeleteLog" "s \<noteq> DeleteAux"
    and neq: "get_project_dir src \<noteq> get_project_dir dst"
  shows "lookup (fs st') (get_project_dir src, sid @ ''.jsonl'')
           = lookup (fs st) (get_project_dir src, sid @ ''.jsonl'')"
    and "sid \<noteq> index_name \<Longrightarrow>
         lookup (fs st') (get_project_dir src, sid) = lookup (fs st) (get_project_dir src, sid)"
proof -
  let ?sd = "get_project_dir src" and ?dd = "get_project_dir dst"
  from move_session_failed [OF mv out] obtain st1 sidx sres sdata st2 didx new st4 r where
    ens: "ensure_dest_dir ev ?dd dry st = (None, st1)"
    and loc: "locate_session ev sid ?sd src sidx st1 = Some (sres, sdata, st2)"
    and mg: "migrate ev sid ?sd ?dd sidx sres didx new (st2\<lparr>ticks := ticks st2 + 1\<rparr>)
               = (Some (s, e), st4)"
    and rb: "rollback ev sid ?dd st4 = (r, st')"
    by blast
  have st': "st' = snd (rollback ev sid ?dd st4)" using rb by simp
  have fr: "lookup (fs st') q = lookup (fs st) q"
    if "fst q = ?sd" and "q \<noteq> (?sd, index_name)" for q
  proof -
    have "lookup (fs st') q = lookup (fs st4) q"
      unfolding st' using that(1) neq by (intro rollback_frame) simp
    also have "\<dots> = lookup (fs (st2\<lparr>ticks := ticks st2 + 1\<rparr>)) q"
      using migrate_early_frame [OF mg early, of q] that neq by simp
    also have "\<dots> = lookup (fs st) q"
      using locate_frame [OF loc] ensure_dest_dir_ok(1) [OF ens] by simp
    finally show ?thesis .
  qed
  show "lookup (fs st') (?sd, sid @ ''.jsonl'') = lookup (fs st) (?sd, sid @ ''.jsonl'')"
    using fr [of "(?sd, sid @ ''.jsonl'')"] jsonl_not_index [of sid] by simp
  show "sid \<noteq> index_name \<Longrightarrow> lookup (fs st') (?sd, sid) = lookup (fs st) (?sd, sid)"
    using fr [of "(?sd, sid)"] by simp
qed

subsection \<open>The files after a move of a session that is not in the source index\<close>

lemma step_dirs:
  "dir_exists (fs (snd (copy_log ev src dst st))) d = dir_exists (fs st) d"
  "dir_exists (fs st) (fst dst) \<Longrightarrow>
     dir_exists (fs (snd (copy_aux ev src dst st))) d = dir_exists (fs st) d"
  "dir_exists (fs (snd (commit_dest ev dd didx new st))) d = dir_exists (fs st) d"
  "dir_exists (fs (snd (delete_log ev p st))) d = dir_exists (fs st) d"
  "dir_exists (fs (snd (delete_aux ev p st))) d = dir_exists (fs st) d"
  by (simp_all add: copy_log_def copy_aux_def commit_dest_def delete_log_def delete_aux_def
        copy2_dirs copytree_dirs save_dirs unlink_dirs rmtree_dirs split: option.splits)

text \<open>
  The file system and the trace after a successful move of a session that is not in the
  source index and whose log file exists.
\<close>

lemma moved_unindexed_files:
  assumes mv: "move_session ev sid src dst dry st = (Moved, st')"
    and ld: "load_sessions_index (fs st) (get_project_dir src) None = Inr sidx"
    and nfs: "find_session_in_index sidx sid = None"
    and log: "lookup (fs st) (get_project_dir src, sid @ ''.jsonl'') = Some (File dta)"
  shows "lookup (fs st') (get_project_dir src, sid @ ''.jsonl'') = None"
    and "lookup (fs st') (get_project_dir src, sid) = None"
    and "lookup (fs st') (get_project_dir dst, sid @ ''.jsonl'')
           = (case lookup (fs st) (get_project_dir dst, sid @ ''.jsonl'') of
                Some (Dir t) \<Rightarrow> Some (Dir (AList.update (sid @ ''.jsonl'') dta t))
              | _ \<Rightarrow> Some (File dta))"
    and "sid \<noteq> index_name \<Longrightarrow>
         lookup (fs st') (get_project_dir dst, sid)
           = (case lookup (fs st) (get_project_dir src, sid) of
                None \<Rightarrow> lookup (fs st) (get_project_dir dst, sid)
              | Some n \<Rightarrow> Some n)"
    and "\<And>q. q \<noteq> (get_project_dir src, sid @ ''.jsonl'') \<Longrightarrow> q \<noteq> (get_project_dir src, sid)
           \<Longrightarrow> q \<noteq> (get_project_dir dst, sid @ ''.jsonl'') \<Longrightarrow> q \<noteq> (get_project_dir dst, sid)
           \<Longrightarrow> q \<noteq> (get_project_dir dst, index_name)
           \<Longrightarrow> lookup (fs st') q = lookup (fs st) q"
    and "\<And>d. dir_exists (fs st') d = (dir_exists (fs st) d \<or> d = get_project_dir dst)"
    and "trace st'
           = trace st
             @ (if dir_exists (fs st) (get_project_dir dst) then []
                else [(MkdirOp (get_project_dir dst), True)])
             @ [(Copy2Op (get_project_dir src, sid @ ''.jsonl'')
                   (get_project_dir dst, sid @ ''.jsonl''), True)]
             @ (if path_exists (fs st) (get_project_dir src, sid)
                then [(CopytreeOp (get_project_dir src, sid) (get_project_dir dst, sid), True)]
                else [])
             @ [(SaveOp (get_project_dir dst), True),
                (UnlinkOp (get_project_dir src, sid @ ''.jsonl''), True)]
             @ (if path_exists (fs st) (get_project_dir src, sid)
                then [(RmtreeOp (get_project_dir src, sid), True)] else [])"
proof -
  let ?sd = "get_project_dir src" and ?dd = "get_project_dir dst"
  let ?sj = "(?sd, sid @ ''.jsonl'')" and ?dj = "(?dd, sid @ ''.jsonl'')"
  let ?ss = "(?sd, sid)" and ?ds = "(?dd, sid)"
  let ?di = "(?dd, index_name)"
  from move_session_Moved [OF mv] obtain st1 sidx' sres sdata st2 didx where
    nd: "\<not> dry"
    and ens: "ensure_dest_dir ev ?dd dry st = (None, st1)"
    and ld1: "load_sessions_index (fs st1) ?sd None = Inr sidx'"
    and loc: "locate_session ev sid ?sd src sidx' st1 = Some (sres, sdata, st2)"
    and mg: "migrate ev sid ?sd ?dd sidx' sres didx
         (stage_entry ev (ticks st2) sdata ?dj dst)
         (st2\<lparr>ticks := ticks st2 + 1\<rparr>) = (None, st')"
    by blast
  have neq: "?sd \<noteq> ?dd"
    using moved_unindexed [OF mv ld nfs] by simp
  have lk1: "\<And>q. lookup (fs st1) q = lookup (fs st) q"
    by (rule ensure_dest_dir_ok(1) [OF ens])
  have dr1: "\<And>d. dir_exists (fs st1) d = (dir_exists (fs st) d \<or> d = ?dd)"
    using ensure_dest_dir_ok(2) [OF ens] nd by auto
  have tr1: "trace st1 = trace st @ (if dir_exists (fs st) ?dd then [] else [(MkdirOp ?dd, True)])"
    using ens nd
    by (auto simp: ensure_dest_dir_def mkdir_def op_defs split: if_splits option.splits)
  have same: "\<And>d op. load_sessions_index (fs st1) d op = load_sessions_index (fs st) d op"
    by (rule load_cong) (rule lk1)
  have sidx': "sidx' = sidx" using ld1 ld same by simp
  from locate_unindexed [OF nfs loc [unfolded sidx']]
  have sres: "sres = None" and st2: "st2 = st1\<lparr>ticks := ticks st1 + 2\<rparr>" by simp_all
  define st3 where "st3 = st2\<lparr>ticks := ticks st2 + 1\<rparr>"
  have fs3: "fs st3 = fs st1" and tr3: "trace st3 = trace st1"
    unfolding st3_def st2 by simp_all
  define new where "new = stage_entry ev (ticks st2) sdata ?dj dst"
  have mg': "migrate ev sid ?sd ?dd sidx None didx new st3 = (None, st')"
    using mg unfolding sidx' sres st3_def new_def .
  from migrate_ok [OF mg'] obtain m1 m2 m3 m4 m5 where
    s1: "copy_log ev ?sj ?dj st3 = (None, m1)"
    and s2: "copy_aux ev ?ss ?ds m1 = (None, m2)"
    and s3: "commit_dest ev ?dd didx new m2 = (None, m3)"
    and s4: "commit_source ev ?sd sidx None m3 = (None, m4)"
    and s5: "delete_log ev ?sj m4 = (None, m5)"
    and s6: "delete_aux ev ?ss m5 = (None, st')"
    by blast
  have m4: "m4 = m3" using s4 by (simp add: commit_source_def)
  \<comment> \<open>frames of the five steps\<close>
  have f1: "\<And>q. q \<noteq> ?dj \<Longrightarrow> lookup (fs m1) q = lookup (fs st) q"
    using copy_log_frame [of _ ?dj ev ?sj st3] s1 fs3 lk1 by simp
  have f2: "\<And>q. q \<noteq> ?ds \<Longrightarrow> lookup (fs m2) q = lookup (fs m1) q"
    using copy_aux_frame [of _ ?ds ev ?ss m1] s2 by simp
  have f3: "\<And>q. q \<noteq> ?di \<Longrightarrow> lookup (fs m3) q = lookup (fs m2) q"
    using commit_dest_frame [of _ ?dd ev didx new m2] s3 by simp
  have f5: "\<And>q. q \<noteq> ?sj \<Longrightarrow> lookup (fs m5) q = lookup (fs m3) q"
    using delete_log_frame [of _ ?sj ev m4] s5 m4 by simp
  have f6: "\<And>q. q \<noteq> ?ss \<Longrightarrow> lookup (fs st') q = lookup (fs m5) q"
    using delete_aux_frame [of _ ?ss ev m5] s6 by simp
  \<comment> \<open>the log file\<close>
  have ex: "path_exists (fs st3) ?sj" using log lk1 fs3 by (simp add: path_exists_def)
  have c2: "copy2 ev CopyLog ?sj ?dj st3 = (None, m1)"
    using s1 ex by (simp add: copy_log_def)
  have l1: "lookup (fs m1) ?dj
      = (case lookup (fs st) ?dj of
           Some (Dir t) \<Rightarrow> Some (Dir (AList.update (sid @ ''.jsonl'') dta t))
         | _ \<Rightarrow> Some (File dta))"
    using copy2_ok [OF c2] log lk1 fs3
    by (auto split: option.splits node.splits)
  have sj5: "lookup (fs m5) ?sj = None" using delete_log_ok [OF s5] by simp
  show g1: "lookup (fs st') ?sj = None"
    using f6 [of ?sj] sj5 by simp
  show g2: "lookup (fs st') ?ss = None" using delete_aux_ok [OF s6] by simp
  show g3: "lookup (fs st') ?dj
           = (case lookup (fs st) ?dj of
                Some (Dir t) \<Rightarrow> Some (Dir (AList.update (sid @ ''.jsonl'') dta t))
              | _ \<Rightarrow> Some (File dta))"
    using f6 [of ?dj] f5 [of ?dj] f3 [of ?dj] f2 [of ?dj] l1 neq jsonl_not_index [of sid]
    by simp
  \<comment> \<open>the auxiliary directory\<close>
  have a1: "lookup (fs m1) ?ss = lookup (fs st) ?ss" using f1 [of ?ss] neq by simp
  have d1: "lookup (fs m1) ?ds = lookup (fs st) ?ds" using f1 [of ?ds] by simp
  have a2: "lookup (fs m2) ?ds
      = (case lookup (fs st) ?ss of None \<Rightarrow> lookup (fs st) ?ds | Some n \<Rightarrow> Some n)"
  proof (cases "lookup (fs st) ?ss")
    case None
    then have "m2 = m1" using s2 a1 by (simp add: copy_aux_def path_exists_def)
    then show ?thesis using None d1 by simp
  next
    case (Some n)
    then have "copytree ev CopyAux ?ss ?ds m1 = (None, m2)"
      using s2 a1 by (simp add: copy_aux_def path_exists_def)
    from copytree_ok [OF this] show ?thesis using Some a1 by auto
  qed
  show "sid \<noteq> index_name \<Longrightarrow>
         lookup (fs st') ?ds
           = (case lookup (fs st) ?ss of None \<Rightarrow> lookup (fs st) ?ds | Some n \<Rightarrow> Some n)"
    using f6 [of ?ds] f5 [of ?ds] f3 [of ?ds] a2 neq by simp
  \<comment> \<open>everything else\<close>
  show "\<And>q. q \<noteq> ?sj \<Longrightarrow> q \<noteq> ?ss \<Longrightarrow> q \<noteq> ?dj \<Longrightarrow> q \<noteq> ?ds \<Longrightarrow> q \<noteq> ?di
           \<Longrightarrow> lookup (fs st') q = lookup (fs st) q"
    using f1 f2 f3 f5 f6 by simp
  \<comment> \<open>project directories\<close>
  have e3: "dir_exists (fs st3) ?dd" using dr1 fs3 by simp
  have q1: "\<And>d. dir_exists (fs m1) d = dir_exists (fs st3) d"
    using step_dirs(1) [of ev ?sj ?dj st3] s1 by simp
  have q2: "\<And>d. dir_exists (fs m2) d = dir_exists (fs m1) d"
    using step_dirs(2) [of m1 ?ds ev ?ss] s2 q1 e3 by simp
  have q3: "\<And>d. dir_exists (fs m3) d = dir_exists (fs m2) d"
    using step_dirs(3) [of ev ?dd didx new m2] s3 by simp
  have q5: "\<And>d. dir_exists (fs m5) d = dir_exists (fs m3) d"
    using step_dirs(4) [of ev ?sj m4] s5 m4 by simp
  have q6: "\<And>d. dir_exists (fs st') d = dir_exists (fs m5) d"
    using step_dirs(5) [of ev ?ss m5] s6 by simp
  show "\<And>d. dir_exists (fs st') d = (dir_exists (fs st) d \<or> d = ?dd)"
    using q1 q2 q3 q5 q6 dr1 fs3 by simp
  \<comment> \<open>the trace\<close>
  have x2: "path_exists (fs m1) ?ss = path_exists (fs st) ?ss"
    using a1 by (simp add: path_exists_def)
  have ss5: "lookup (fs m5) ?ss = lookup (fs st) ?ss"
    using f5 [of ?ss] f3 [of ?ss] f2 [of ?ss] a1 neq by simp
  have x4: "path_exists (fs m4) ?sj"
    using f3 [of ?sj] f2 [of ?sj] f1 [of ?sj] log neq m4 jsonl_not_index [of sid]
    by (simp add: path_exists_def)
  have x5: "path_exists (fs m5) ?ss = path_exists (fs st) ?ss"
    using ss5 by (simp add: path_exists_def)
  have en: "entries didx \<noteq> None" using commit_dest_entries [OF s3] .
  note t1 = step_trace_rel(1) [OF s1] and t2 = step_trace_rel(2) [OF s2]
    and t3 = step_trace_rel(3) [OF s3] and t5 = step_trace_rel(5) [OF s5]
    and t6 = step_trace_rel(6) [OF s6]
  show "trace st'
           = trace st
             @ (if dir_exists (fs st) ?dd then [] else [(MkdirOp ?dd, True)])
             @ [(Copy2Op ?sj ?dj, True)]
             @ (if path_exists (fs st) ?ss then [(CopytreeOp ?ss ?ds, True)] else [])
             @ [(SaveOp ?dd, True), (UnlinkOp ?sj, True)]
             @ (if path_exists (fs st) ?ss then [(RmtreeOp ?ss, True)] else [])"
    using t1 t2 t3 t5 t6 ex x2 x4 x5 en m4 tr1 tr3 by simp
qed

section \<open>Path encoder: properties\<close>

text \<open>
  Claim C8. For every input string, \<open>encode_path\<close> returns the input with every \<open>/\<close>
  replaced by a hyphen and then every \<open>@\<close> or \<open>.\<close> replaced by a hyphen, and every other
  character left as it is, in its place: the result is the input mapped character by
  character, so nothing is trimmed, folded or reordered and the length is the input's.
\<close>

theorem encode_path_spec:
  "encode_path p =
     map (\<lambda>c. if c = CHR ''/'' \<or> c = CHR ''@'' \<or> c = CHR ''.'' then CHR ''-'' else c) p
   \<and> length (encode_path p) = length p"
proof -
  have "encode_path p
      = map (\<lambda>c. if c \<in> set [CHR ''@'', CHR ''.''] then CHR ''-'' else c)
          (map (\<lambda>c. if c = CHR ''/'' then CHR ''-'' else c) p)"
    by (simp only: encode_path_def Let_def str_replace_char re_sub_class_char)
  also have "\<dots>
      = map (\<lambda>c. if c = CHR ''/'' \<or> c = CHR ''@'' \<or> c = CHR ''.'' then CHR ''-'' else c) p"
    by simp
  finally show ?thesis by simp
qed

section \<open>Session index store: properties\<close>

text \<open>
  Claim C7. For every project directory without a \<^verbatim>\<open>sessions-index.json\<close>, loading the
  index does not fail and returns version 1, an empty entries list, and as
  \<open>originalPath\<close> the supplied fallback project path, or the empty string when none is
  supplied.
\<close>

theorem load_missing_index:
  assumes "\<not> path_exists f (project_dir, index_name)"
  shows "load_sessions_index f project_dir None
           = Inr \<lparr>version = 1, entries = Some [], originalPath = ''''\<rparr>
       \<and> load_sessions_index f project_dir (Some p)
           = Inr \<lparr>version = 1, entries = Some [], originalPath = p\<rparr>"
  using assms by (simp add: load_sessions_index_def or_empty_def)

theorem load_missing_index_witness:
  "\<not> path_exists (Map.empty(''-a'' \<mapsto> Map.empty)) (''-a'', index_name)
   \<and> load_sessions_index (Map.empty(''-a'' \<mapsto> Map.empty)) ''-a'' (Some ''/a'')
       = Inr \<lparr>version = 1, entries = Some [], originalPath = ''/a''\<rparr>"
proof -
  have h: "\<not> path_exists (Map.empty(''-a'' \<mapsto> Map.empty)) (''-a'', index_name)"
    by (simp add: path_exists_def lookup_def)
  show ?thesis using h load_missing_index [OF h, of "''/a''"] by simp
qed

section \<open>Migration transaction: properties\<close>

text \<open>
  Claim C6. With dry-run enabled, the move changes nothing in the file system, whatever
  the scenario (session indexed, unindexed, destination directory missing): the file
  system after the call is the one before it, and no mutating call (mkdir, copy, index
  write, delete) has been made.
\<close>

theorem dry_run_no_mutation:
  "fs (snd (move_session ev session_id source_path dest_path True st)) = fs st
   \<and> trace (snd (move_session ev session_id source_path dest_path True st)) = trace st"
  by (auto simp add: move_session_def ensure_dest_dir_def Let_def dest: locate_frame
        split: option.splits sum.splits prod.splits)

text \<open>
  Claim C4, as amended. After every successful move of a session that was present in the
  source index, the entry found for the session in the destination index has the
  sessionId, created timestamp and summary of the source entry before the move, its
  fullPath is the destination log-file path, its projectPath is the destination project
  path, and its modified timestamp is the clock reading taken when the entry was staged.
\<close>

theorem moved_entry_metadata:
  assumes "fst (move_session ev sid src dst dry st) = Moved"
    and "load_sessions_index (fs st) (get_project_dir src) None = Inr sidx"
    and "find_session_in_index sidx sid = Some (i, e)"
  shows "\<exists>didx' k new.
        load_sessions_index (fs (snd (move_session ev sid src dst dry st)))
          (get_project_dir dst) None = Inr didx'
      \<and> find_session_in_index didx' sid = Some (k, new)
      \<and> map_of new ''sessionId'' = Some (JStr sid)
      \<and> map_of new ''sessionId'' = map_of e ''sessionId''
      \<and> map_of new ''created'' = map_of e ''created''
      \<and> map_of new ''summary'' = map_of e ''summary''
      \<and> map_of new ''fullPath'' = Some (JStr (path_str ev (get_project_dir dst, sid @ ''.jsonl'')))
      \<and> map_of new ''projectPath'' = Some (JStr dst)
      \<and> map_of new ''modified'' = Some (JStr (clock ev (ticks st)))"
proof -
  define st' where "st' = snd (move_session ev sid src dst dry st)"
  have mv: "move_session ev sid src dst dry st = (Moved, st')"
    using assms(1) unfolding st'_def by (metis prod.collapse)
  let ?dj = "(get_project_dir dst, sid @ ''.jsonl'')"
  let ?new = "stage_entry ev (ticks st) e ?dj dst"
  from moved_indexed [OF mv assms(2,3)] obtain didx des where
    ldd: "load_sessions_index (fs st) (get_project_dir dst) (Some dst) = Inr didx"
    and des: "entries didx = Some des" and nf: "find_session_in_index didx sid = None"
    and lk: "lookup (fs st') (get_project_dir dst, index_name)
          = Some (File (Json (didx\<lparr>entries := Some (des @ [?new])\<rparr>)))"
    by blast
  have eid: "map_of e ''sessionId'' = Some (JStr sid)"
    using scan_Some [OF assms(3) [unfolded find_session_in_index_def]] by simp
  have nid: "map_of ?new ''sessionId'' = Some (JStr sid)"
    using eid by (simp add: stage_entry_keys)
  have "scan_entries 0 des sid = None"
    using nf des by (simp add: find_session_in_index_def get_entries_def)
  then have fnd: "find_session_in_index (didx\<lparr>entries := Some (des @ [?new])\<rparr>) sid
      = Some (length des, ?new)"
    using nid by (simp add: find_session_in_index_def get_entries_def scan_append)
  have ld': "load_sessions_index (fs st') (get_project_dir dst) None
      = Inr (didx\<lparr>entries := Some (des @ [?new])\<rparr>)"
    using lk by (rule load_Json)
  show ?thesis
    unfolding st'_def [symmetric]
    using ld' fnd nid eid by (auto simp: stage_entry_keys)
qed

theorem moved_entry_metadata_witness:
  "fst (move_session demo_env ''s1'' ''/a'' ''/b'' False
          (demo_state [mk_entry ''s1'' ''Fix bug'' ''2026-01-02T10:00:00''])) = Moved
   \<and> (\<exists>didx' k new.
        load_sessions_index (fs (snd (move_session demo_env ''s1'' ''/a'' ''/b'' False
            (demo_state [mk_entry ''s1'' ''Fix bug'' ''2026-01-02T10:00:00'']))))
          (get_project_dir ''/b'') None = Inr didx'
      \<and> find_session_in_index didx' ''s1'' = Some (k, new)
      \<and> map_of new ''summary'' = Some (JStr ''Fix bug'')
      \<and> map_of new ''created'' = Some (JStr ''2026-01-01T09:00:00'')
      \<and> map_of new ''projectPath'' = Some (JStr ''/b'')
      \<and> map_of new ''fullPath'' = Some (JStr ''/home/alice/.claude/projects/-b/s1.jsonl'')
      \<and> map_of new ''modified'' = Some (JStr ''2026-11-03T12:00:00''))"
proof -
  let ?e = "mk_entry ''s1'' ''Fix bug'' ''2026-01-02T10:00:00''"
  have h1: "fst (move_session demo_env ''s1'' ''/a'' ''/b'' False (demo_state [?e])) = Moved"
    by code_simp
  have h2: "load_sessions_index (fs (demo_state [?e])) (get_project_dir ''/a'') None
      = Inr (demo_index [?e])"
    by code_simp
  have h3: "find_session_in_index (demo_index [?e]) ''s1'' = Some (0, ?e)"
    by code_simp
  have p: "path_str demo_env (get_project_dir ''/b'', ''s1'' @ ''.jsonl'')
      = ''/home/alice/.claude/projects/-b/s1.jsonl''"
    by code_simp
  have q: "map_of ?e ''summary'' = Some (JStr ''Fix bug'')"
    "map_of ?e ''created'' = Some (JStr ''2026-01-01T09:00:00'')"
    "clock demo_env (ticks (demo_state [?e])) = ''2026-11-03T12:00:00''"
    by code_simp+
  show ?thesis
    using h1 moved_entry_metadata [OF h1 h2 h3] unfolding p q by blast
qed


text \<open>
  Claim C4 as stated asks for a modified timestamp greater than or equal to the value
  before the move. The code stores the clock reading whatever the old value is: an entry
  whose modified timestamp lies after the clock reading is moved, and its timestamp goes
  back.
\<close>

theorem modified_not_monotone_counterexample:
  "fst (move_session demo_env ''s1'' ''/a'' ''/b'' False
          (demo_state [mk_entry ''s1'' ''Fix bug'' ''2099-01-01T00:00:00''])) = Moved
   \<and> map_of (mk_entry ''s1'' ''Fix bug'' ''2099-01-01T00:00:00'') ''modified''
        = Some (JStr ''2099-01-01T00:00:00'')
   \<and> load_sessions_index (fs (snd (move_session demo_env ''s1'' ''/a'' ''/b'' False
          (demo_state [mk_entry ''s1'' ''Fix bug'' ''2099-01-01T00:00:00'']))))
        (get_project_dir ''/b'') None
        = Inr \<lparr>version = 1,
               entries = Some [[(''sessionId'', JStr ''s1''),
                  (''fullPath'', JStr ''/home/alice/.claude/projects/-b/s1.jsonl''),
                  (''projectPath'', JStr ''/b''),
                  (''summary'', JStr ''Fix bug''),
                  (''created'', JStr ''2026-01-01T09:00:00''),
                  (''modified'', JStr ''2026-11-03T12:00:00'')]],
               originalPath = ''/b''\<rparr>
   \<and> \<not> (''2099-01-01T00:00:00'' \<le> ''2026-11-03T12:00:00'')"
  by code_simp

text \<open>
  Claim C10. If the source index has several entries with the session's identifier, the
  locator returns the first of them (no earlier entry matches), a successful move removes
  the entry at exactly that position from the source index and leaves all others,
  later duplicates included, in place and in order, and the destination index gains
  exactly one entry, the only one there with that identifier.
\<close>

theorem first_match_removed:
  assumes "fst (move_session ev sid src dst dry st) = Moved"
    and "load_sessions_index (fs st) (get_project_dir src) None = Inr sidx"
    and "find_session_in_index sidx sid = Some (i, e)"
  shows "i < length (get_entries sidx) \<and> get_entries sidx ! i = e
      \<and> map_of e ''sessionId'' = Some (JStr sid)
      \<and> (\<forall>j<i. map_of (get_entries sidx ! j) ''sessionId'' \<noteq> Some (JStr sid))
      \<and> load_sessions_index (fs (snd (move_session ev sid src dst dry st)))
           (get_project_dir src) None
          = Inr (sidx\<lparr>entries :=
                   Some (take i (get_entries sidx) @ drop (Suc i) (get_entries sidx))\<rparr>)
      \<and> (\<exists>didx des new.
            load_sessions_index (fs st) (get_project_dir dst) (Some dst) = Inr didx
          \<and> entries didx = Some des
          \<and> load_sessions_index (fs (snd (move_session ev sid src dst dry st)))
               (get_project_dir dst) None = Inr (didx\<lparr>entries := Some (des @ [new])\<rparr>)
          \<and> filter (\<lambda>s. map_of s ''sessionId'' = Some (JStr sid)) (des @ [new]) = [new])"
proof -
  define st' where "st' = snd (move_session ev sid src dst dry st)"
  have mv: "move_session ev sid src dst dry st = (Moved, st')"
    using assms(1) unfolding st'_def by (metis prod.collapse)
  let ?new = "stage_entry ev (ticks st) e (get_project_dir dst, sid @ ''.jsonl'') dst"
  from moved_indexed [OF mv assms(2,3)] obtain didx des where
    ldd: "load_sessions_index (fs st) (get_project_dir dst) (Some dst) = Inr didx"
    and des: "entries didx = Some des" and nf: "find_session_in_index didx sid = None"
    and lkd: "lookup (fs st') (get_project_dir dst, index_name)
          = Some (File (Json (didx\<lparr>entries := Some (des @ [?new])\<rparr>)))"
    and lks: "lookup (fs st') (get_project_dir src, index_name)
          = Some (File (Json (sidx\<lparr>entries := Some (pop i (get_entries sidx))\<rparr>)))"
    by blast
  from scan_Some [OF assms(3) [unfolded find_session_in_index_def]]
  have first: "i < length (get_entries sidx)" "get_entries sidx ! i = e"
    "map_of e ''sessionId'' = Some (JStr sid)"
    "\<forall>j<i. map_of (get_entries sidx ! j) ''sessionId'' \<noteq> Some (JStr sid)"
    by simp_all
  have "scan_entries 0 des sid = None"
    using nf des by (simp add: find_session_in_index_def get_entries_def)
  then have none: "\<forall>s \<in> set des. map_of s ''sessionId'' \<noteq> Some (JStr sid)"
    by (simp add: scan_None)
  have one: "filter (\<lambda>s. map_of s ''sessionId'' = Some (JStr sid)) (des @ [?new]) = [?new]"
    using none first(3) by (simp add: stage_entry_keys filter_empty_conv)
  have lds: "load_sessions_index (fs st') (get_project_dir src) None
      = Inr (sidx\<lparr>entries := Some (take i (get_entries sidx) @ drop (Suc i) (get_entries sidx))\<rparr>)"
    using load_Json [OF lks] by (simp add: pop_def)
  have ldd': "load_sessions_index (fs st') (get_project_dir dst) None
      = Inr (didx\<lparr>entries := Some (des @ [?new])\<rparr>)"
    using lkd by (rule load_Json)
  show ?thesis
    unfolding st'_def [symmetric]
    using first lds ldd des ldd' one by blast
qed


theorem first_match_removed_witness:
  "fst (move_session demo_env ''s1'' ''/a'' ''/b'' False (demo_state dup_entries)) = Moved
   \<and> find_session_in_index (demo_index dup_entries) ''s1''
        = Some (1, mk_entry ''s1'' ''First copy'' ''2026-01-03T10:00:00'')
   \<and> load_sessions_index
        (fs (snd (move_session demo_env ''s1'' ''/a'' ''/b'' False (demo_state dup_entries))))
        (get_project_dir ''/a'') None
        = Inr (demo_index [mk_entry ''s0'' ''Other'' ''2026-01-02T10:00:00'',
                           mk_entry ''s1'' ''Second copy'' ''2026-01-04T10:00:00''])"
proof -
  let ?e = "mk_entry ''s1'' ''First copy'' ''2026-01-03T10:00:00''"
  have h1: "fst (move_session demo_env ''s1'' ''/a'' ''/b'' False (demo_state dup_entries)) = Moved"
    by code_simp
  have h2: "load_sessions_index (fs (demo_state dup_entries)) (get_project_dir ''/a'') None
      = Inr (demo_index dup_entries)"
    by code_simp
  have h3: "find_session_in_index (demo_index dup_entries) ''s1'' = Some (1, ?e)"
    by code_simp
  have r: "(demo_index dup_entries)\<lparr>entries :=
      Some (take 1 (get_entries (demo_index dup_entries))
            @ drop (Suc 1) (get_entries (demo_index dup_entries)))\<rparr>
      = demo_index [mk_entry ''s0'' ''Other'' ''2026-01-02T10:00:00'',
                    mk_entry ''s1'' ''Second copy'' ''2026-01-04T10:00:00'']"
    by (simp add: demo_index_def dup_entries_def get_entries_def)
  show ?thesis
    using h1 h3 first_match_removed [OF h1 h2 h3] unfolding r by blast
qed

text \<open>
  Claim C5, as amended. For every session with an ordinary identifier whose log file exists
  in the source project directory but which has no entry in the source index, a move to
  another project directory succeeds when the destination index loads, has an entries
  list and does not list the identifier, an auxiliary directory of the session has no
  namesake in the destination, and no operation fails. It produces exactly one new
  destination index entry: identifier as given, summary "Migrated session", created and
  modified set to clock readings taken during the move, paths of the destination. The log
  file and the auxiliary directory are at the destination and no longer at the source,
  nothing else in the file system changes but the destination directory being there, and
  the source index file is not rewritten: the calls made are the copies, the write of the
  destination index and the deletions, in that order.
\<close>

theorem unindexed_session_moves:
  assumes "ordinary_id sid" and "src \<noteq> ''''" and "dst \<noteq> ''''"
    and "\<forall>s. fault ev s = None"
    and "get_project_dir src \<noteq> get_project_dir dst"
    and "dir_exists (fs st) (get_project_dir src)"
    and "load_sessions_index (fs st) (get_project_dir src) None = Inr sidx"
    and "find_session_in_index sidx sid = None"
    and "lookup (fs st) (get_project_dir src, sid @ ''.jsonl'') = Some (File dta)"
    and "lookup (fs st) (get_project_dir src, sid) = None
         \<or> (\<exists>t. lookup (fs st) (get_project_dir src, sid) = Some (Dir t))
           \<and> lookup (fs st) (get_project_dir dst, sid) = None"
    and "load_sessions_index (fs st) (get_project_dir dst) (Some dst) = Inr didx"
    and "entries didx = Some des"
    and "find_session_in_index didx sid = None"
  shows "fst (move_session ev sid src dst False st) = Moved
     \<and> load_sessions_index (fs (snd (move_session ev sid src dst False st)))
          (get_project_dir dst) None
         = Inr (didx\<lparr>entries := Some (des @
             [[(''sessionId'', JStr sid),
               (''fullPath'', JStr (path_str ev (get_project_dir dst, sid @ ''.jsonl''))),
               (''projectPath'', JStr dst),
               (''summary'', JStr ''Migrated session''),
               (''created'', JStr (clock ev (ticks st))),
               (''modified'', JStr (clock ev (ticks st + 2)))]])\<rparr>)
     \<and> lookup (fs (snd (move_session ev sid src dst False st))) (get_project_dir src, index_name)
         = lookup (fs st) (get_project_dir src, index_name)
     \<and> (\<forall>b. (SaveOp (get_project_dir src), b)
                \<in> set (trace (snd (move_session ev sid src dst False st)))
              \<longrightarrow> (SaveOp (get_project_dir src), b) \<in> set (trace st))
     \<and> lookup (fs (snd (move_session ev sid src dst False st)))
          (get_project_dir src, sid @ ''.jsonl'') = None
     \<and> lookup (fs (snd (move_session ev sid src dst False st))) (get_project_dir src, sid) = None
     \<and> lookup (fs (snd (move_session ev sid src dst False st)))
          (get_project_dir dst, sid @ ''.jsonl'')
         = (case lookup (fs st) (get_project_dir dst, sid @ ''.jsonl'') of
              Some (Dir t) \<Rightarrow> Some (Dir (AList.update (sid @ ''.jsonl'') dta t))
            | _ \<Rightarrow> Some (File dta))
     \<and> (sid \<noteq> index_name \<longrightarrow>
          lookup (fs (snd (move_session ev sid src dst False st))) (get_project_dir dst, sid)
            = (case lookup (fs st) (get_project_dir src, sid) of
                 None \<Rightarrow> lookup (fs st) (get_project_dir dst, sid)
               | Some n \<Rightarrow> Some n))
     \<and> (\<forall>q. q \<noteq> (get_project_dir src, sid @ ''.jsonl'') \<and> q \<noteq> (get_project_dir src, sid)
            \<and> q \<noteq> (get_project_dir dst, sid @ ''.jsonl'') \<and> q \<noteq> (get_project_dir dst, sid)
            \<and> q \<noteq> (get_project_dir dst, index_name)
          \<longrightarrow> lookup (fs (snd (move_session ev sid src dst False st))) q = lookup (fs st) q)
     \<and> (\<forall>d. dir_exists (fs (snd (move_session ev sid src dst False st))) d
            = (dir_exists (fs st) d \<or> d = get_project_dir dst))
     \<and> trace (snd (move_session ev sid src dst False st))
         = trace st
           @ (if dir_exists (fs st) (get_project_dir dst) then []
              else [(MkdirOp (get_project_dir dst), True)])
           @ [(Copy2Op (get_project_dir src, sid @ ''.jsonl'')
                 (get_project_dir dst, sid @ ''.jsonl''), True)]
           @ (if path_exists (fs st) (get_project_dir src, sid)
              then [(CopytreeOp (get_project_dir src, sid) (get_project_dir dst, sid), True)]
              else [])
           @ [(SaveOp (get_project_dir dst), True),
              (UnlinkOp (get_project_dir src, sid @ ''.jsonl''), True)]
           @ (if path_exists (fs st) (get_project_dir src, sid)
              then [(RmtreeOp (get_project_dir src, sid), True)] else [])"
proof -
  define st' where "st' = snd (move_session ev sid src dst False st)"
  have ok: "fst (move_session ev sid src dst False st) = Moved"
    by (rule unindexed_move_runs [OF assms(4-13)])
  then have mv: "move_session ev sid src dst False st = (Moved, st')"
    unfolding st'_def by (metis prod.collapse)
  from moved_unindexed [OF mv assms(7,8)] assms(11,12)
  have "lookup (fs st') (get_project_dir dst, index_name)
      = Some (File (Json (didx\<lparr>entries := Some (des @
           [stage_entry ev (ticks st + 2)
              (create_session_entry ev (ticks st) sid (get_project_dir src) src)
              (get_project_dir dst, sid @ ''.jsonl'') dst])\<rparr>)))"
    and keep: "lookup (fs st') (get_project_dir src, index_name)
          = lookup (fs st) (get_project_dir src, index_name)"
    and tr: "\<forall>b. (SaveOp (get_project_dir src), b) \<in> set (trace st')
              \<longrightarrow> (SaveOp (get_project_dir src), b) \<in> set (trace st)"
    by auto
  then have idx: "load_sessions_index (fs st') (get_project_dir dst) None
      = Inr (didx\<lparr>entries := Some (des @
           [stage_entry ev (ticks st + 2)
              (create_session_entry ev (ticks st) sid (get_project_dir src) src)
              (get_project_dir dst, sid @ ''.jsonl'') dst])\<rparr>)"
    by (simp add: load_Json)
  note files = moved_unindexed_files [OF mv assms(7,8,9)]
  note idx' = idx [unfolded staged_fresh_entry]
  have c8: "sid \<noteq> index_name \<longrightarrow>
          lookup (fs st') (get_project_dir dst, sid)
            = (case lookup (fs st) (get_project_dir src, sid) of
                 None \<Rightarrow> lookup (fs st) (get_project_dir dst, sid)
               | Some n \<Rightarrow> Some n)"
    using files(4) by simp
  have c9: "\<forall>q. q \<noteq> (get_project_dir src, sid @ ''.jsonl'') \<and> q \<noteq> (get_project_dir src, sid)
            \<and> q \<noteq> (get_project_dir dst, sid @ ''.jsonl'') \<and> q \<noteq> (get_project_dir dst, sid)
            \<and> q \<noteq> (get_project_dir dst, index_name)
          \<longrightarrow> lookup (fs st') q = lookup (fs st) q"
    using files(5) by simp
  have c10: "\<forall>d. dir_exists (fs st') d = (dir_exists (fs st) d \<or> d = get_project_dir dst)"
    using files(6) by simp
  show ?thesis
    unfolding st'_def [symmetric]
    by (intro conjI) (fact ok, fact idx', fact keep, fact tr, fact files(1), fact files(2),
          fact files(3), fact c8, fact c9, fact c10, fact files(7))
qed

theorem unindexed_session_moves_witness:
  "fst (move_session demo_env ''s1'' ''/a'' ''/b'' False (demo_state [])) = Moved
   \<and> load_sessions_index (fs (snd (move_session demo_env ''s1'' ''/a'' ''/b'' False (demo_state []))))
        (get_project_dir ''/b'') None
       = Inr \<lparr>version = 1,
              entries = Some [[(''sessionId'', JStr ''s1''),
                 (''fullPath'', JStr ''/home/alice/.claude/projects/-b/s1.jsonl''),
                 (''projectPath'', JStr ''/b''),
                 (''summary'', JStr ''Migrated session''),
                 (''created'', JStr ''2026-11-03T12:00:00''),
                 (''modified'', JStr ''2026-11-03T12:00:02'')]],
              originalPath = ''/b''\<rparr>
   \<and> lookup (fs (snd (move_session demo_env ''s1'' ''/a'' ''/b'' False (demo_state []))))
        (get_project_dir ''/a'', index_name)
       = Some (File (Json (demo_index [])))
   \<and> lookup (fs (snd (move_session demo_env ''s1'' ''/a'' ''/b'' False (demo_state []))))
        (get_project_dir ''/a'', ''s1'' @ ''.jsonl'') = None
   \<and> lookup (fs (snd (move_session demo_env ''s1'' ''/a'' ''/b'' False (demo_state []))))
        (get_project_dir ''/b'', ''s1'' @ ''.jsonl'') = Some (File (Bytes ''0123456789''))
   \<and> lookup (fs (snd (move_session demo_env ''s1'' ''/a'' ''/b'' False (demo_state []))))
        (get_project_dir ''/b'', ''s1'') = Some (Dir [(''notes.txt'', Bytes ''n'')])"
proof -
  let ?didx = "\<lparr>version = 1, entries = Some [], originalPath = ''/b''\<rparr>"
  have o: "ordinary_id ''s1''" "''/a'' \<noteq> ''''" "''/b'' \<noteq> ''''"
    by (simp_all add: ordinary_id_def)
  have a1: "\<forall>s. fault demo_env s = None" by (simp add: demo_env_def)
  have a2: "get_project_dir ''/a'' \<noteq> get_project_dir ''/b''" by code_simp
  have a3: "dir_exists (fs (demo_state [])) (get_project_dir ''/a'')" by code_simp
  have a4: "load_sessions_index (fs (demo_state [])) (get_project_dir ''/a'') None
      = Inr (demo_index [])" by code_simp
  have a5: "find_session_in_index (demo_index []) ''s1'' = None" by code_simp
  have a6: "lookup (fs (demo_state [])) (get_project_dir ''/a'', ''s1'' @ ''.jsonl'')
      = Some (File (Bytes ''0123456789''))" by code_simp
  have s: "lookup (fs (demo_state [])) (get_project_dir ''/a'', ''s1'')
        = Some (Dir [(''notes.txt'', Bytes ''n'')])" by code_simp
  have d: "lookup (fs (demo_state [])) (get_project_dir ''/b'', ''s1'') = None"
    by code_simp
  have dj: "lookup (fs (demo_state [])) (get_project_dir ''/b'', ''s1'' @ ''.jsonl'') = None"
    by code_simp
  have a7: "lookup (fs (demo_state [])) (get_project_dir ''/a'', ''s1'') = None
         \<or> (\<exists>t. lookup (fs (demo_state [])) (get_project_dir ''/a'', ''s1'') = Some (Dir t))
           \<and> lookup (fs (demo_state [])) (get_project_dir ''/b'', ''s1'') = None"
    using s d by simp
  have a8: "load_sessions_index (fs (demo_state [])) (get_project_dir ''/b'') (Some ''/b'')
      = Inr ?didx" by code_simp
  have a9: "entries ?didx = Some []" by simp
  have a10: "find_session_in_index ?didx ''s1'' = None" by code_simp
  have p: "path_str demo_env (get_project_dir ''/b'', ''s1'' @ ''.jsonl'')
      = ''/home/alice/.claude/projects/-b/s1.jsonl''" by code_simp
  have c: "clock demo_env (ticks (demo_state [])) = ''2026-11-03T12:00:00''"
    "clock demo_env (ticks (demo_state []) + 2) = ''2026-11-03T12:00:02''" by code_simp+
  have i: "lookup (fs (demo_state [])) (get_project_dir ''/a'', index_name)
      = Some (File (Json (demo_index [])))" by code_simp
  have n: "''s1'' \<noteq> index_name" by (simp add: index_name_def)
  note t = unindexed_session_moves [OF o a1 a2 a3 a4 a5 a6 a7 a8 a9 a10]
  show ?thesis
    using t n unfolding p c i s d dj by simp
qed

text \<open>
  Claim C5 as stated promises success for every session that has a log file and no entry
  in the source index. The code checks the destination index first (line 166): when it
  already lists the identifier the run ends with "already exists in destination project"
  and nothing is moved.
\<close>

theorem unindexed_duplicate_counterexample:
  "ordinary_id ''s1''
   \<and> load_sessions_index (fs (demo_state2 [] listing_s1)) (get_project_dir ''/a'') None
       = Inr (demo_index [])
   \<and> find_session_in_index (demo_index []) ''s1'' = None
   \<and> lookup (fs (demo_state2 [] listing_s1)) (get_project_dir ''/a'', ''s1.jsonl'')
       = Some (File (Bytes ''0123456789''))
   \<and> fst (move_session demo_env ''s1'' ''/a'' ''/b'' False (demo_state2 [] listing_s1))
       = DuplicateSession
   \<and> trace (snd (move_session demo_env ''s1'' ''/a'' ''/b'' False (demo_state2 [] listing_s1))) = []
   \<and> lookup (fs (snd (move_session demo_env ''s1'' ''/a'' ''/b'' False
                         (demo_state2 [] listing_s1)))) (get_project_dir ''/b'', ''s1.jsonl'')
       = None"
  by code_simp

text \<open>
  Claim C3, as amended. Whenever a move aborts with SessionNotFound or DuplicateSession,
  no file or directory inside any project directory has been created, changed or removed
  (neither index file is modified, nothing is copied, nothing is deleted). The only
  mutation that may have occurred is the creation of the destination project directory,
  empty, when it did not exist, the run is not a dry run and the abort is SessionNotFound;
  an abort with DuplicateSession leaves the file system as it was.
\<close>

theorem validation_abort_frame:
  assumes "fst (move_session ev sid src dst dry st) = SessionNotFound
         \<or> fst (move_session ev sid src dst dry st) = DuplicateSession"
  shows "(\<forall>q. lookup (fs (snd (move_session ev sid src dst dry st))) q = lookup (fs st) q)
       \<and> (fs (snd (move_session ev sid src dst dry st)) = fs st
            \<and> trace (snd (move_session ev sid src dst dry st)) = trace st
          \<or> fst (move_session ev sid src dst dry st) = SessionNotFound
            \<and> \<not> dry \<and> \<not> dir_exists (fs st) (get_project_dir dst)
            \<and> fs (snd (move_session ev sid src dst dry st))
                = (fs st)(get_project_dir dst \<mapsto> Map.empty)
            \<and> trace (snd (move_session ev sid src dst dry st))
                = trace st @ [(MkdirOp (get_project_dir dst), True)])"
proof -
  define out where "out = fst (move_session ev sid src dst dry st)"
  define st' where "st' = snd (move_session ev sid src dst dry st)"
  define dd where "dd = get_project_dir dst"
  have mv: "move_session ev sid src dst dry st = (out, st')"
    unfolding out_def st'_def by simp
  have o: "out = SessionNotFound \<or> out = DuplicateSession"
    using assms unfolding out_def .
  from move_session_abort [OF mv o] obtain st1 sidx where
    ens: "ensure_dest_dir ev dd dry st = (None, st1)"
    and alt: "out = SessionNotFound \<and> st' = st1
       \<or> out = DuplicateSession
         \<and> (\<exists>sres sdata didx.
              locate_session ev sid (get_project_dir src) src sidx st1 = Some (sres, sdata, st')
            \<and> load_sessions_index (fs st') dd (Some dst) = Inr didx
            \<and> find_session_in_index didx sid \<noteq> None)"
    unfolding dd_def by blast
  have lk1: "\<And>q. lookup (fs st1) q = lookup (fs st) q"
    by (rule ensure_dest_dir_ok(1) [OF ens])
  let ?made = "\<not> dry \<and> \<not> dir_exists (fs st) dd
      \<and> st1 = st\<lparr>fs := (fs st)(dd \<mapsto> Map.empty), trace := trace st @ [(MkdirOp dd, True)]\<rparr>"
  from ensure_dest_dir_cases [OF ens] have c: "st1 = st \<or> ?made" .
  from alt show ?thesis
  proof
    assume a: "out = SessionNotFound \<and> st' = st1"
    then show ?thesis
      using c lk1 unfolding out_def [symmetric] st'_def [symmetric] dd_def [symmetric]
      by auto
  next
    assume "out = DuplicateSession
         \<and> (\<exists>sres sdata didx.
              locate_session ev sid (get_project_dir src) src sidx st1 = Some (sres, sdata, st')
            \<and> load_sessions_index (fs st') dd (Some dst) = Inr didx
            \<and> find_session_in_index didx sid \<noteq> None)"
    then obtain sres sdata didx where
      loc: "locate_session ev sid (get_project_dir src) src sidx st1 = Some (sres, sdata, st')"
      and ldd: "load_sessions_index (fs st') dd (Some dst) = Inr didx"
      and dup: "find_session_in_index didx sid \<noteq> None"
      by blast
    from locate_frame [OF loc] have fr: "fs st' = fs st1" "trace st' = trace st1" by simp_all
    have "\<not> ?made"
    proof
      assume m: ?made
      then have "fs st' = (fs st)(dd \<mapsto> Map.empty)" using fr by simp
      with ldd fresh_dir_no_duplicate [of "fs st" dd "Some dst" sid] dup show False by simp
    qed
    with c have "st1 = st" by blast
    then show ?thesis
      using fr unfolding out_def [symmetric] st'_def [symmetric] dd_def [symmetric] by simp
  qed
qed

theorem validation_abort_frame_witness:
  "fst (move_session demo_env ''zz'' ''/a'' ''/b'' False (demo_state [])) = SessionNotFound
   \<and> (\<forall>q. lookup (fs (snd (move_session demo_env ''zz'' ''/a'' ''/b'' False (demo_state [])))) q
          = lookup (fs (demo_state [])) q)
   \<and> fs (snd (move_session demo_env ''zz'' ''/a'' ''/b'' False (demo_state [])))
       = (fs (demo_state []))(get_project_dir ''/b'' \<mapsto> Map.empty)"
proof -
  have h: "fst (move_session demo_env ''zz'' ''/a'' ''/b'' False (demo_state [])) = SessionNotFound"
    by code_simp
  have t: "trace (snd (move_session demo_env ''zz'' ''/a'' ''/b'' False (demo_state []))) \<noteq> trace (demo_state [])"
    by code_simp
  show ?thesis
    using h t validation_abort_frame [OF disjI1 [OF h]] by blast
qed

text \<open>
  Claim C3 as stated says that no mutation has occurred. The destination directory is
  made (lines 131 to 135) before the session is looked for, so a run that ends with
  "not found" has already created it.
\<close>

theorem abort_after_mkdir_counterexample:
  "fst (move_session demo_env ''zz'' ''/a'' ''/b'' False (demo_state [])) = SessionNotFound
   \<and> \<not> dir_exists (fs (demo_state [])) ''-b''
   \<and> dir_exists (fs (snd (move_session demo_env ''zz'' ''/a'' ''/b'' False (demo_state [])))) ''-b''
   \<and> trace (snd (move_session demo_env ''zz'' ''/a'' ''/b'' False (demo_state [])))
       = [(MkdirOp ''-b'', True)]
   \<and> fs (snd (move_session demo_env ''zz'' ''/a'' ''/b'' False (demo_state []))) \<noteq> fs (demo_state [])"
proof -
  have a: "fst (move_session demo_env ''zz'' ''/a'' ''/b'' False (demo_state [])) = SessionNotFound"
    by code_simp
  have b: "\<not> dir_exists (fs (demo_state [])) ''-b''" by code_simp
  have c: "dir_exists (fs (snd (move_session demo_env ''zz'' ''/a'' ''/b'' False (demo_state [])))) ''-b''"
    by code_simp
  have d: "trace (snd (move_session demo_env ''zz'' ''/a'' ''/b'' False (demo_state [])))
       = [(MkdirOp ''-b'', True)]" by code_simp
  from b c have "fs (snd (move_session demo_env ''zz'' ''/a'' ''/b'' False (demo_state []))) \<noteq> fs (demo_state [])"
    by auto
  with a b c d show ?thesis by simp
qed

text \<open>
  Claim C9, as amended. Whenever rollback runs to completion (its removal of the
  destination log file and auxiliary directory, its reload of the destination index and
  the write itself do not raise), it has written the destination index file as its last
  action, with every entry of the session filtered out; when the failure came before the
  destination index commit (while copying) and the destination had no
  \<^verbatim>\<open>sessions-index.json\<close>, the file it creates holds version 1, an empty entries list
  and the empty string as \<open>originalPath\<close>.
\<close>

theorem rollback_writes_dest_index:
  assumes "fst (move_session ev sid src dst dry st) = RolledBack s e"
  shows "(\<exists>idx es.
            lookup (fs (snd (move_session ev sid src dst dry st))) (get_project_dir dst, index_name)
              = Some (File (Json idx))
          \<and> entries idx = Some es
          \<and> find_session_in_index idx sid = None)
       \<and> last (trace (snd (move_session ev sid src dst dry st)))
           = (SaveOp (get_project_dir dst), True)
       \<and> ((s = CopyLog \<or> s = CopyAux)
            \<and> \<not> path_exists (fs st) (get_project_dir dst, index_name)
          \<longrightarrow> lookup (fs (snd (move_session ev sid src dst dry st)))
                 (get_project_dir dst, index_name)
               = Some (File (Json \<lparr>version = 1, entries = Some [], originalPath = ''''\<rparr>)))"
proof -
  define st' where "st' = snd (move_session ev sid src dst dry st)"
  define sd where "sd = get_project_dir src"
  define dd where "dd = get_project_dir dst"
  let ?sj = "(sd, sid @ ''.jsonl'')" and ?dj = "(dd, sid @ ''.jsonl'')"
  let ?ss = "(sd, sid)" and ?ds = "(dd, sid)"
  have mv: "move_session ev sid src dst dry st = (RolledBack s e, st')"
    using assms unfolding st'_def by (metis prod.collapse)
  from move_session_RolledBack [OF mv] obtain st1 sidx sres sdata st2 didx st4 where
    ens: "ensure_dest_dir ev dd dry st = (None, st1)"
    and ld1: "load_sessions_index (fs st1) sd None = Inr sidx"
    and loc: "locate_session ev sid sd src sidx st1 = Some (sres, sdata, st2)"
    and mg: "migrate ev sid sd dd sidx sres didx
         (stage_entry ev (ticks st2) sdata ?dj dst)
         (st2\<lparr>ticks := ticks st2 + 1\<rparr>) = (Some (s, e), st4)"
    and rb: "rollback ev sid dd st4 = (None, st')"
    unfolding sd_def dd_def by blast
  from rollback_ok [OF rb] obtain r2 :: state and idx where
    k: "lookup (fs r2) (dd, index_name) = lookup (fs st4) (dd, index_name)
          \<or> lookup (fs r2) (dd, index_name) = None"
    and ldr: "load_sessions_index (fs r2) dd None = Inr idx"
    and fin: "lookup (fs st') (dd, index_name)
         = Some (File (Json (idx\<lparr>entries :=
              Some (filter (\<lambda>s. map_of s ''sessionId'' \<noteq> Some (JStr sid)) (get_entries idx))\<rparr>)))"
    and tr: "trace st' = trace r2 @ [(SaveOp dd, True)]"
    by blast
  have part1: "\<exists>idx es. lookup (fs st') (dd, index_name) = Some (File (Json idx))
          \<and> entries idx = Some es \<and> find_session_in_index idx sid = None"
    using fin by (simp add: find_session_in_index_def get_entries_def filter_scan_None)
  have part2: "last (trace st') = (SaveOp dd, True)" using tr by simp
  have part3: "lookup (fs st') (dd, index_name)
               = Some (File (Json \<lparr>version = 1, entries = Some [], originalPath = ''''\<rparr>))"
    if early: "s = CopyLog \<or> s = CopyAux"
      and absent: "\<not> path_exists (fs st) (dd, index_name)"
  proof -
    have lk1: "\<And>q. lookup (fs st1) q = lookup (fs st) q"
      by (rule ensure_dest_dir_ok(1) [OF ens])
    have fs2: "fs st2 = fs st1" using locate_frame [OF loc] by simp
    let ?st3 = "st2\<lparr>ticks := ticks st2 + 1\<rparr>"
    have a3: "lookup (fs ?st3) (dd, index_name) = None"
      using absent lk1 fs2 by (simp add: path_exists_def)
    have s3: "lookup (fs ?st3) (sd, index_name) = None
            \<or> lookup (fs ?st3) (sd, index_name) = Some (File (Json sidx))"
      using load_ok_cases [OF ld1] fs2 by simp
    have a4: "lookup (fs st4) (dd, index_name) = None"
      using migrate_fails_early [OF mg early]
    proof
      assume "st4 = snd (copy_log ev ?sj ?dj ?st3)"
      then show ?thesis
        using copy_log_frame [of "(dd, index_name)" ?dj ev ?sj ?st3] a3 jsonl_not_index [of sid]
        by auto
    next
      assume "\<exists>m1. copy_log ev ?sj ?dj ?st3 = (None, m1) \<and> copy_aux ev ?ss ?ds m1 = (Some e, st4)"
      then obtain m1 where c1: "copy_log ev ?sj ?dj ?st3 = (None, m1)"
        and c2: "copy_aux ev ?ss ?ds m1 = (Some e, st4)" by blast
      have b1: "lookup (fs m1) (dd, index_name) = None"
        using copy_log_frame [of "(dd, index_name)" ?dj ev ?sj ?st3] c1 a3 jsonl_not_index [of sid]
        by auto
      show ?thesis
      proof (cases "sid = index_name")
        case False
        then show ?thesis
          using copy_aux_frame [of "(dd, index_name)" ?ds ev ?ss m1] c2 b1 by auto
      next
        case True
        have "lookup (fs m1) (sd, index_name) = lookup (fs ?st3) (sd, index_name)"
          using copy_log_frame [of "(sd, index_name)" ?dj ev ?sj ?st3] c1 jsonl_not_index [of sid]
          by auto
        then have "\<forall>t. lookup (fs m1) ?ss \<noteq> Some (Dir t)"
          using s3 True by auto
        then have "fs st4 = fs m1"
          using c2 copytree_not_dir [of m1 ?ss ev CopyAux ?ds]
          by (auto simp: copy_aux_def split: if_splits)
        then show ?thesis using b1 by simp
      qed
    qed
    then have "lookup (fs r2) (dd, index_name) = None" using k by auto
    then have "idx = \<lparr>version = 1, entries = Some [], originalPath = ''''\<rparr>"
      using ldr by (simp add: load_sessions_index_def path_exists_def or_empty_def)
    then show ?thesis using fin by (simp add: get_entries_def)
  qed
  show ?thesis
    unfolding st'_def [symmetric] dd_def [symmetric]
    using part1 part2 part3 by blast
qed

theorem rollback_writes_dest_index_witness:
  "fst (move_session (fault_at CopyLog Clean) ''s1'' ''/a'' ''/b'' False (demo_state [fix_bug]))
     = RolledBack CopyLog OSError
   \<and> \<not> path_exists (fs (demo_state [fix_bug])) (get_project_dir ''/b'', index_name)
   \<and> lookup (fs (snd (move_session (fault_at CopyLog Clean) ''s1'' ''/a'' ''/b'' False
                         (demo_state [fix_bug]))))
        (get_project_dir ''/b'', index_name)
       = Some (File (Json \<lparr>version = 1, entries = Some [], originalPath = ''''\<rparr>))"
proof -
  have h: "fst (move_session (fault_at CopyLog Clean) ''s1'' ''/a'' ''/b'' False
                  (demo_state [fix_bug])) = RolledBack CopyLog OSError"
    by code_simp
  have a: "\<not> path_exists (fs (demo_state [fix_bug])) (get_project_dir ''/b'', index_name)"
    by code_simp
  show ?thesis
    using h a rollback_writes_dest_index [OF h] by blast
qed

text \<open>
  Claim C9 as stated says that rollback writes the destination index whenever it runs.
  The write is the last statement of the inner \<^verbatim>\<open>try\<close> block: when an earlier one raises,
  the block is left for "Rollback failed" and nothing is written. Here the destination
  holds a regular file with the name of the auxiliary directory: copying the directory
  raises, and in the rollback the recursive delete of that file raises.
\<close>

theorem rollback_stops_counterexample:
  "fst (move_session demo_env ''s1'' ''/a'' ''/b'' False (demo_state2 [fix_bug] file_named_s1))
     = RollbackFailed CopyAux FileExistsError NotADirectoryError
   \<and> trace (snd (move_session demo_env ''s1'' ''/a'' ''/b'' False
                     (demo_state2 [fix_bug] file_named_s1)))
       = [(Copy2Op (''-a'', ''s1.jsonl'') (''-b'', ''s1.jsonl''), True),
          (CopytreeOp (''-a'', ''s1'') (''-b'', ''s1''), False),
          (UnlinkOp (''-b'', ''s1.jsonl''), True),
          (RmtreeOp (''-b'', ''s1''), False)]
   \<and> lookup (fs (snd (move_session demo_env ''s1'' ''/a'' ''/b'' False
                         (demo_state2 [fix_bug] file_named_s1)))) (''-b'', index_name)
       = None"
  by code_simp

text \<open>
  Claim C1 says that after every rollback the source log file and the source auxiliary
  directory are as they were before the move, also when the failure is raised while
  deleting the source artifacts. The run below is that case: the recursive delete of the
  source auxiliary directory raises after the source log file has been unlinked. The
  rollback then removes the destination copies, so the log file exists in neither
  project, and neither index lists the session.
\<close>

theorem source_lost_when_delete_fails:
  "fst (move_session (fault_at DeleteAux Clean) ''s1'' ''/a'' ''/b'' False (demo_state [fix_bug]))
     = RolledBack DeleteAux OSError
   \<and> lookup (fs (demo_state [fix_bug])) (''-a'', ''s1.jsonl'') = Some (File (Bytes ''0123456789''))
   \<and> lookup (fs (snd (move_session (fault_at DeleteAux Clean) ''s1'' ''/a'' ''/b'' False
                         (demo_state [fix_bug])))) (''-a'', ''s1.jsonl'') = None
   \<and> lookup (fs (snd (move_session (fault_at DeleteAux Clean) ''s1'' ''/a'' ''/b'' False
                         (demo_state [fix_bug])))) (''-b'', ''s1.jsonl'') = None
   \<and> load_sessions_index (fs (snd (move_session (fault_at DeleteAux Clean) ''s1'' ''/a'' ''/b''
                         False (demo_state [fix_bug])))) ''-a'' None
       = Inr \<lparr>version = 1, entries = Some [], originalPath = ''/a''\<rparr>
   \<and> load_sessions_index (fs (snd (move_session (fault_at DeleteAux Clean) ''s1'' ''/a'' ''/b''
                         False (demo_state [fix_bug])))) ''-b'' None
       = Inr \<lparr>version = 1, entries = Some [], originalPath = ''/b''\<rparr>
   \<and> trace (snd (move_session (fault_at DeleteAux Clean) ''s1'' ''/a'' ''/b'' False
                     (demo_state [fix_bug])))
       = [(MkdirOp ''-b'', True),
          (Copy2Op (''-a'', ''s1.jsonl'') (''-b'', ''s1.jsonl''), True),
          (CopytreeOp (''-a'', ''s1'') (''-b'', ''s1''), True),
          (SaveOp ''-b'', True),
          (SaveOp ''-a'', True),
          (UnlinkOp (''-a'', ''s1.jsonl''), True),
          (RmtreeOp (''-a'', ''s1''), False),
          (UnlinkOp (''-b'', ''s1.jsonl''), True),
          (RmtreeOp (''-b'', ''s1''), True),
          (SaveOp ''-b'', True)]"
  by code_simp

text \<open>
  Claim C2 says that no deletion of a source artifact precedes the index commits. The run
  below moves a session that is not in the index from a project to the same project:
  copying the log file onto itself raises, and the rollback, which removes the
  destination paths, removes the source log file and the source auxiliary directory,
  which are the same paths, before any index has been written.
\<close>

theorem source_deleted_before_commit:
  "fst (move_session demo_env ''s1'' ''/a'' ''/a'' False (demo_state []))
     = RolledBack CopyLog SameFileError
   \<and> find_session_in_index (demo_index []) ''s1'' = None
   \<and> lookup (fs (demo_state [])) (''-a'', ''s1.jsonl'') = Some (File (Bytes ''0123456789''))
   \<and> lookup (fs (demo_state [])) (''-a'', ''s1'') = Some (Dir [(''notes.txt'', Bytes ''n'')])
   \<and> lookup (fs (snd (move_session demo_env ''s1'' ''/a'' ''/a'' False (demo_state []))))
        (''-a'', ''s1.jsonl'') = None
   \<and> lookup (fs (snd (move_session demo_env ''s1'' ''/a'' ''/a'' False (demo_state []))))
        (''-a'', ''s1'') = None
   \<and> trace (snd (move_session demo_env ''s1'' ''/a'' ''/a'' False (demo_state [])))
       = [(Copy2Op (''-a'', ''s1.jsonl'') (''-a'', ''s1.jsonl''), False),
          (UnlinkOp (''-a'', ''s1.jsonl''), True),
          (RmtreeOp (''-a'', ''s1''), True),
          (SaveOp ''-a'', True)]
   \<and> \<not> deletions_follow_commits ''s1'' ''-a'' ''-a'' False
         (trace (snd (move_session demo_env ''s1'' ''/a'' ''/a'' False (demo_state []))))"
  by code_simp

end
